theory Spec2Isabelle
  imports Complex_Main
begin

section \<open>View synthesis and photometric losses of the visual-odometry trainer\<close>

text \<open>
  The tensors of \<^verbatim>\<open>model/synthesize_batch.py\<close> and
  \<^verbatim>\<open>model/loss_and_metric/losses.py\<close> are nested lists, outermost axis first:
  a tensor of shape \<^verbatim>\<open>[batch, 3, 3]\<close> is a \<open>real list list list\<close>.
  The \<^verbatim>\<open>float32\<close> entries are read as real numbers: a result below is a
  result about the arithmetic the code writes down, evaluated without rounding, without
  infinities and without NaN. The one exception is the part on the bilinear weights in
  binary32, where every difference and every product is rounded.
\<close>

subsection \<open>Configuration errors\<close>

datatype error = WrongInputException string

datatype photometric_fn = Photometric_loss_l1 | Photometric_loss_ssim

record PhotometricLossMultiScale =
  photometric_loss :: photometric_fn
  key_suffix :: string

text \<open>\<^verbatim>\<open>PhotometricLossMultiScale.__init__(self, method, key_suffix="")\<close>\<close>

definition PhotometricLossMultiScale_init ::
  "string \<Rightarrow> string \<Rightarrow> error + PhotometricLossMultiScale" where
  "PhotometricLossMultiScale_init method suffix =
     (if method = ''L1'' then
        Inr \<lparr>photometric_loss = Photometric_loss_l1, key_suffix = suffix\<rparr>
      else if method = ''SSIM'' then
        Inr \<lparr>photometric_loss = Photometric_loss_ssim, key_suffix = suffix\<rparr>
      else Inl (WrongInputException (''Wrong photometric loss name: '' @ method)))"

record StereoDepthLoss =
  stereo_photometric_loss :: photometric_fn

text \<open>\<^verbatim>\<open>StereoDepthLoss.__init__(self, method)\<close>\<close>

definition StereoDepthLoss_init :: "string \<Rightarrow> error + StereoDepthLoss" where
  "StereoDepthLoss_init method =
     (if method = ''L1'' then Inr \<lparr>stereo_photometric_loss = Photometric_loss_l1\<rparr>
      else if method = ''SSIM'' then Inr \<lparr>stereo_photometric_loss = Photometric_loss_ssim\<rparr>
      else Inl (WrongInputException (''Wrong photometric loss name: '' @ method)))"

datatype activation = InverseSigmoidActivation | ExponentialActivation

text \<open>
  \<^verbatim>\<open>ModelFactory.activation_factory(self, activ_name)\<close>. The last branch builds
  the exception object and drops it: there is no \<^verbatim>\<open>raise\<close>, so the method falls
  off its end and returns Python's \<^verbatim>\<open>None\<close>, here \<open>Inr None\<close>.
\<close>

definition activation_factory :: "string \<Rightarrow> error + activation option" where
  "activation_factory activ_name =
     (if activ_name = ''InverseSigmoid'' then Inr (Some InverseSigmoidActivation)
      else if activ_name = ''Exponential'' then Inr (Some ExponentialActivation)
      else (let dropped = WrongInputException
                  (''[activation_factory] wrong activation name: '' @ activ_name)
            in Inr None))"

datatype pose_net = PoseNet

text \<open>
  \<^verbatim>\<open>ModelFactory.pose_net_factory\<close>, the sibling of \<open>activation_factory\<close>
  that does raise (the network it builds is kept abstract).
\<close>

definition pose_net_factory :: "string \<Rightarrow> error + pose_net" where
  "pose_net_factory net_name =
     (if net_name = ''PoseNet'' then Inr PoseNet
      else Inl (WrongInputException (''[pose_net_factory] wrong pose net name: '' @ net_name)))"

subsection \<open>Intrinsic matrix per scale\<close>

text \<open>
  \<^verbatim>\<open>scale_intrinsic(intrinsic, scale)\<close>: \<open>intrinsic\<close> is \<^verbatim>\<open>[batch, 3, 3]\<close>.
  \<^verbatim>\<open>tf.slice(intrinsic, (0, 0, 0), (-1, 2, -1))\<close> keeps the first two rows of every
  matrix, \<^verbatim>\<open>tf.concat(..., axis=1)\<close> appends the constant row to each.
\<close>

definition scale_intrinsic :: "real list list list \<Rightarrow> int \<Rightarrow> real list list list" where
  "scale_intrinsic intrinsic scale =
     (let batch = length intrinsic;
          scaled_part = map (take 2) intrinsic;
          scaled_part = map (map (map (\<lambda>x. x / real_of_int scale))) scaled_part;
          const_part = replicate batch [[0, 0, 1]];
          scaled_intrinsic = map2 (@) scaled_part const_part
      in scaled_intrinsic)"

subsection \<open>Tensor operations of the numerical framework\<close>

text \<open>
  The few TensorFlow operations the resampler uses, on nested lists. A matrix is a list
  of rows. \<open>slice_rows begin len\<close> is \<^verbatim>\<open>tf.slice\<close> along one axis (and the
  Python slice \<^verbatim>\<open>[begin:begin+len]\<close>); \<open>broadcast_rows\<close> stretches an axis
  of size one; \<open>clip_by_value\<close> is \<^verbatim>\<open>maximum(minimum(t, max), min)\<close>;
  \<open>cast_int32\<close> truncates toward zero; \<open>gather_nd\<close> reads
  \<^verbatim>\<open>params[rows[k], cols[k]]\<close> for every \<open>k\<close>.
\<close>

definition mat_map :: "('a \<Rightarrow> 'b) \<Rightarrow> 'a list list \<Rightarrow> 'b list list" where
  "mat_map f A = map (map f) A"

definition mat_map2 :: "('a \<Rightarrow> 'b \<Rightarrow> 'c) \<Rightarrow> 'a list list \<Rightarrow> 'b list list \<Rightarrow> 'c list list" where
  "mat_map2 f A B = map2 (map2 f) A B"

definition slice_rows :: "nat \<Rightarrow> nat \<Rightarrow> 'a list \<Rightarrow> 'a list" where
  "slice_rows begin len A = take len (drop begin A)"

definition broadcast_rows :: "nat \<Rightarrow> 'a list \<Rightarrow> 'a list" where
  "broadcast_rows n A = (if length A = 1 then replicate n (hd A) else A)"

definition tf_floor :: "real \<Rightarrow> real" where
  "tf_floor x = real_of_int \<lfloor>x\<rfloor>"

definition clip_by_value :: "real \<Rightarrow> real \<Rightarrow> real \<Rightarrow> real" where
  "clip_by_value t clip_value_min clip_value_max = max (min t clip_value_max) clip_value_min"

definition cast_int32 :: "real \<Rightarrow> int" where
  "cast_int32 x = (if 0 \<le> x then \<lfloor>x\<rfloor> else \<lceil>x\<rceil>)"

definition gather_nd :: "'a list list \<Rightarrow> int list \<Rightarrow> int list \<Rightarrow> 'a list" where
  "gather_nd params rows cols = map2 (\<lambda>r c. params ! nat r ! nat c) rows cols"

definition reduce_sum_axis0 :: "real list list list \<Rightarrow> real list list" where
  "reduce_sum_axis0 T = (case T of [] \<Rightarrow> [] | t # ts \<Rightarrow> foldl (mat_map2 (+)) t ts)"

definition reshape_rows :: "nat \<Rightarrow> nat \<Rightarrow> 'a list \<Rightarrow> 'a list list" where
  "reshape_rows height width flat =
     map (\<lambda>y. take width (drop (y * width) flat)) [0..<height]"

text \<open>Static shapes, as the docstrings give them: \<^verbatim>\<open>[a, b]\<close> up to \<^verbatim>\<open>[a, b, c, d, e]\<close>.\<close>

definition shape2 :: "nat \<Rightarrow> nat \<Rightarrow> 'a list list \<Rightarrow> bool" where
  "shape2 a b T = (length T = a \<and> list_all (\<lambda>x. length x = b) T)"

definition shape3 :: "nat \<Rightarrow> nat \<Rightarrow> nat \<Rightarrow> 'a list list list \<Rightarrow> bool" where
  "shape3 a b c T = (length T = a \<and> list_all (shape2 b c) T)"

definition shape4 :: "nat \<Rightarrow> nat \<Rightarrow> nat \<Rightarrow> nat \<Rightarrow> 'a list list list list \<Rightarrow> bool" where
  "shape4 a b c d T = (length T = a \<and> list_all (shape3 b c d) T)"

definition shape5 ::
  "nat \<Rightarrow> nat \<Rightarrow> nat \<Rightarrow> nat \<Rightarrow> nat \<Rightarrow> 'a list list list list list \<Rightarrow> bool" where
  "shape5 a b c d e T = (length T = a \<and> list_all (shape4 b c d e) T)"

subsection \<open>Bilinear resampler\<close>

text \<open>
  Every function of the resampler works on each batch element and each source frame
  alone: the \<open>_slice\<close> definition is the function's body on the tensor of one
  \<^verbatim>\<open>[b, s]\<close>, the definition under the source's name maps it over both axes.

  \<^verbatim>\<open>neighbor_int_pixels(pixel_coords, height, width)\<close>: \<open>pixel_coords\<close> has the
  rows \<open>u\<close>, \<open>v\<close> (and a row of ones); the result has the rows
  \<open>u_floor\<close>, \<open>u_ceil\<close>, \<open>v_floor\<close>, \<open>v_ceil\<close>. The ceiling is the
  unclamped floor plus one, clamped.
\<close>

definition neighbor_int_pixels_slice :: "real list list \<Rightarrow> nat \<Rightarrow> nat \<Rightarrow> real list list" where
  "neighbor_int_pixels_slice pixel_coords height width =
     (let u = slice_rows 0 1 pixel_coords;
          u_floor = mat_map tf_floor u;
          u_ceil = mat_map (\<lambda>x. clip_by_value (x + 1) 0 (real width - 1)) u_floor;
          u_floor = mat_map (\<lambda>x. clip_by_value x 0 (real width - 1)) u_floor;
          v = slice_rows 1 1 pixel_coords;
          v_floor = mat_map tf_floor v;
          v_ceil = mat_map (\<lambda>x. clip_by_value (x + 1) 0 (real height - 1)) v_floor;
          v_floor = mat_map (\<lambda>x. clip_by_value x 0 (real height - 1)) v_floor;
          pixel_floorceil = u_floor @ u_ceil @ v_floor @ v_ceil
      in pixel_floorceil)"

definition neighbor_int_pixels ::
  "real list list list list \<Rightarrow> nat \<Rightarrow> nat \<Rightarrow> real list list list list" where
  "neighbor_int_pixels pixel_coords height width =
     map (map (\<lambda>pc. neighbor_int_pixels_slice pc height width)) pixel_coords"

text \<open>\<^verbatim>\<open>make_valid_mask(pixel_floorceil)\<close>: one row, 1.0 where both pairs are adjacent.\<close>

definition make_valid_mask_slice :: "real list list \<Rightarrow> real list list" where
  "make_valid_mask_slice pixel_floorceil =
     (let uf = slice_rows 0 1 pixel_floorceil;
          uc = slice_rows 1 1 pixel_floorceil;
          vf = slice_rows 2 1 pixel_floorceil;
          vc = slice_rows 3 1 pixel_floorceil;
          mask = mat_map2 (\<lambda>f c. f + 1 = c) uf uc;
          mask = mat_map2 (\<and>) mask (mat_map2 (\<lambda>f c. f + 1 = c) vf vc);
          mask = mat_map (\<lambda>m. if m then 1 else 0) mask
      in mask)"

definition make_valid_mask :: "real list list list list \<Rightarrow> real list list list list" where
  "make_valid_mask pixel_floorceil = map (map make_valid_mask_slice) pixel_floorceil"

text \<open>
  \<^verbatim>\<open>calc_neighbor_weights([pixel_coords, pixel_floorceil, valid_mask])\<close>: the rows
  \<open>w_ufvf\<close>, \<open>w_ufvc\<close>, \<open>w_ucvf\<close>, \<open>w_ucvc\<close>, each multiplied by the one-row
  mask (broadcast over the four rows).
\<close>

definition calc_neighbor_weights_slice ::
  "real list list \<Rightarrow> real list list \<Rightarrow> real list list \<Rightarrow> real list list" where
  "calc_neighbor_weights_slice pixel_coords pixel_floorceil valid_mask =
     (let ui = 0; vi = 1;
          uf = 0; uc = 1; vf = 2; vc = 3;
          w_uf = mat_map2 (-) (slice_rows uc 1 pixel_floorceil) (slice_rows ui 1 pixel_coords);
          w_uc = mat_map2 (-) (slice_rows ui 1 pixel_coords) (slice_rows uf 1 pixel_floorceil);
          w_vf = mat_map2 (-) (slice_rows vc 1 pixel_floorceil) (slice_rows vi 1 pixel_coords);
          w_vc = mat_map2 (-) (slice_rows vi 1 pixel_coords) (slice_rows vf 1 pixel_floorceil);
          w_ufvf = mat_map2 (*) w_uf w_vf;
          w_ufvc = mat_map2 (*) w_uf w_vc;
          w_ucvf = mat_map2 (*) w_uc w_vf;
          w_ucvc = mat_map2 (*) w_uc w_vc;
          weights = w_ufvf @ w_ufvc @ w_ucvf @ w_ucvc;
          weights = mat_map2 (*) weights (broadcast_rows (length weights) valid_mask)
      in weights)"

definition calc_neighbor_weights ::
  "real list list list list \<Rightarrow> real list list list list \<Rightarrow> real list list list list
   \<Rightarrow> real list list list list" where
  "calc_neighbor_weights pixel_coords pixel_floorceil valid_mask =
     map2 (\<lambda>pcs (fcs, ms). map2 (\<lambda>pc (fc, m). calc_neighbor_weights_slice pc fc m)
                                 pcs (zip fcs ms))
          pixel_coords (zip pixel_floorceil valid_mask)"

text \<open>
  \<^verbatim>\<open>sample_neighbor_images([source_image, pixel_floorceil])\<close>: the four gathered
  images \<open>im_ufvf\<close>, \<open>im_ufvc\<close>, \<open>im_ucvf\<close>, \<open>im_ucvc\<close>, each indexed
  \<^verbatim>\<open>[v, u]\<close>. The indices are clamped into the image by \<open>neighbor_int_pixels\<close>
  (lemma \<open>gather_index_in_range\<close>), so the gather never reads out of range.
\<close>

definition sample_neighbor_images_slice ::
  "real list list list \<Rightarrow> real list list \<Rightarrow> real list list list" where
  "sample_neighbor_images_slice source_image pixel_floorceil =
     (let pixel_floorceil = mat_map cast_int32 pixel_floorceil;
          uf = hd (slice_rows 0 1 pixel_floorceil);
          uc = hd (slice_rows 1 1 pixel_floorceil);
          vf = hd (slice_rows 2 1 pixel_floorceil);
          vc = hd (slice_rows 3 1 pixel_floorceil);
          imflat_ufvf = gather_nd source_image vf uf;
          imflat_ufvc = gather_nd source_image vc uf;
          imflat_ucvf = gather_nd source_image vf uc;
          imflat_ucvc = gather_nd source_image vc uc;
          sampled_images = [imflat_ufvf, imflat_ufvc, imflat_ucvf, imflat_ucvc]
      in sampled_images)"

definition sample_neighbor_images ::
  "real list list list list list \<Rightarrow> real list list list list
   \<Rightarrow> real list list list list list" where
  "sample_neighbor_images source_image pixel_floorceil =
     map2 (map2 sample_neighbor_images_slice) source_image pixel_floorceil"

text \<open>
  \<^verbatim>\<open>merge_images([sampled_images, weights])\<close>: every channel of a sampled pixel
  times its weight, summed over the four neighbours.
\<close>

definition merge_images_slice :: "real list list list \<Rightarrow> real list list \<Rightarrow> real list list" where
  "merge_images_slice sampled_images weights =
     (let weights = mat_map (\<lambda>w. [w]) weights;
          weighted_image = mat_map2 (\<lambda>px w. map (\<lambda>ch. ch * hd w) px) sampled_images weights;
          merged_flat_image = reduce_sum_axis0 weighted_image
      in merged_flat_image)"

definition merge_images ::
  "real list list list list list \<Rightarrow> real list list list list \<Rightarrow> real list list list list" where
  "merge_images sampled_images weights = map2 (map2 merge_images_slice) sampled_images weights"

text \<open>
  \<^verbatim>\<open>erase_invalid_pixels([flat_image, depth])\<close>: \<open>depth\<close> is
  \<^verbatim>\<open>[batch, height, width, 1]\<close>, flattened row by row to
  \<^verbatim>\<open>[batch, height*width, 1]\<close>; the mask of one batch element is used for each of
  its source frames and for every channel.
\<close>

definition erase_invalid_pixels ::
  "real list list list list \<Rightarrow> real list list list list \<Rightarrow> real list list list list" where
  "erase_invalid_pixels flat_image depth =
     (let depth_vec = map (\<lambda>d. map (\<lambda>x. [x]) (concat (concat d))) depth;
          depth_invalid_mask = map (mat_map (\<lambda>x. x = 0)) depth_vec
      in map2 (\<lambda>images mask.
                 map (\<lambda>img. map2 (\<lambda>px m. map (\<lambda>ch. if hd m then 0 else ch) px) img mask)
                     images)
              flat_image depth_invalid_mask)"

text \<open>
  \<^verbatim>\<open>reconstruct_bilinear_interp(pixel_coords, image, depth)\<close>. \<open>height\<close> and
  \<open>width\<close> are read from the static shape of the image tensor.
\<close>

definition reconstruct_bilinear_interp ::
  "real list list list list \<Rightarrow> real list list list list list \<Rightarrow> real list list list list
   \<Rightarrow> real list list list list list" where
  "reconstruct_bilinear_interp pixel_coords img depth =
     (let height = length (hd (hd img));
          width = length (hd (hd (hd img)));
          pixel_floorceil = neighbor_int_pixels pixel_coords height width;
          valid_mask = make_valid_mask pixel_floorceil;
          weights = calc_neighbor_weights pixel_coords pixel_floorceil valid_mask;
          sampled_images = sample_neighbor_images img pixel_floorceil;
          flat_image = merge_images sampled_images weights;
          flat_image = erase_invalid_pixels flat_image depth;
          recon_image = map (map (reshape_rows height width)) flat_image
      in recon_image)"

text \<open>
  The interpolated image before the depth mask: the body of
  \<open>reconstruct_bilinear_interp\<close> up to \<open>merge_images\<close> (lemma
  \<open>reconstruct_bilinear_interp_unfold\<close>), and the same on one slice.
\<close>

definition interp_flat_image ::
  "real list list list list \<Rightarrow> real list list list list list \<Rightarrow> real list list list list" where
  "interp_flat_image pixel_coords img =
     (let height = length (hd (hd img));
          width = length (hd (hd (hd img)));
          pixel_floorceil = neighbor_int_pixels pixel_coords height width;
          valid_mask = make_valid_mask pixel_floorceil;
          weights = calc_neighbor_weights pixel_coords pixel_floorceil valid_mask;
          sampled_images = sample_neighbor_images img pixel_floorceil;
          flat_image = merge_images sampled_images weights
      in flat_image)"

definition interp_flat_slice ::
  "real list list \<Rightarrow> real list list list \<Rightarrow> nat \<Rightarrow> nat \<Rightarrow> real list list" where
  "interp_flat_slice pc im height width =
     (let fc = neighbor_int_pixels_slice pc height width;
          m = make_valid_mask_slice fc;
          w = calc_neighbor_weights_slice pc fc m
      in merge_images_slice (sample_neighbor_images_slice im fc) w)"

subsection \<open>A small example\<close>

text \<open>
  One batch element, one source frame, a 2x2 image. The four target pixels are warped
  to (0, 0), (1, 1), (1/2, 1/2) and (0, 1); the depth of the first pixel is zero.
\<close>

definition ex_pixel_coords :: "real list list list list" where
  "ex_pixel_coords = [[[[0, 1, 1 / 2, 0], [0, 1, 1 / 2, 1], [1, 1, 1, 1]]]]"

definition ex_image :: "real list list list list list" where
  "ex_image = [[[[[1, 2, 3], [4, 5, 6]], [[7, 8, 9], [10, 11, 13]]]]]"

definition ex_depth :: "real list list list list" where
  "ex_depth = [[[[0], [5]], [[5], [5]]]]"

subsection \<open>Photometric losses\<close>

text \<open>
  \<^verbatim>\<open>tf.reduce_mean\<close> of a list of numbers. (On an empty list TensorFlow gives NaN and
  HOL's division gives 0; the results below are stated for images with at least one
  pixel.) \<open>t3_map\<close> and \<open>t3_map2\<close> are the elementwise operations on
  \<^verbatim>\<open>[height, width, channels]\<close>; \<open>tf_where condition x y\<close> is
  \<^verbatim>\<open>tf.where(condition, x, y)\<close> for a mask with one channel and a scalar \<open>x\<close>.
\<close>

definition reduce_mean :: "real list \<Rightarrow> real" where
  "reduce_mean xs = sum_list xs / real (length xs)"

definition t3_map :: "('a \<Rightarrow> 'b) \<Rightarrow> 'a list list list \<Rightarrow> 'b list list list" where
  "t3_map f T = map (map (map f)) T"

definition t3_map2 ::
  "('a \<Rightarrow> 'b \<Rightarrow> 'c) \<Rightarrow> 'a list list list \<Rightarrow> 'b list list list \<Rightarrow> 'c list list list" where
  "t3_map2 f A B = map2 (map2 (map2 f)) A B"

definition tf_where :: "bool list list list \<Rightarrow> real \<Rightarrow> real list list list \<Rightarrow> real list list list" where
  "tf_where condition x y = mat_map2 (\<lambda>px m. map (\<lambda>e. if hd m then x else e) px) y condition"

text \<open>
  \<^verbatim>\<open>photometric_loss_l1(synt_target, orig_target)\<close>: \<open>synt_target\<close> is
  \<^verbatim>\<open>[batch, num_src, height, width, 3]\<close>, \<open>orig_target\<close> is
  \<^verbatim>\<open>[batch, height, width, 3]\<close> and is used for every source frame. The
  \<open>_slice\<close> definition is the body for one batch element and one source frame; the
  mean over the axes 2, 3, 4 is the mean of all entries of that slice.
\<close>

definition photometric_loss_l1_slice :: "real list list list \<Rightarrow> real list list list \<Rightarrow> real" where
  "photometric_loss_l1_slice synt_target orig_target =
     (let synt_target_gray = mat_map (\<lambda>px. [reduce_mean px]) synt_target;
          error_mask = t3_map (\<lambda>g. g = 0) synt_target_gray;
          photo_error = t3_map2 (\<lambda>s t. \<bar>s - t\<bar>) synt_target orig_target;
          photo_error = tf_where error_mask 0 photo_error;
          photo_loss = reduce_mean (concat (concat photo_error))
      in photo_loss)"

definition photometric_loss_l1 ::
  "real list list list list list \<Rightarrow> real list list list list \<Rightarrow> real list list" where
  "photometric_loss_l1 synt_target orig_target =
     map2 (\<lambda>synts orig. map (\<lambda>synt. photometric_loss_l1_slice synt orig) synts)
          synt_target orig_target"

text \<open>
  \<^verbatim>\<open>AveragePooling3D(pool_size=[1, 3, 3], strides=1, padding="SAME")\<close> on
  \<^verbatim>\<open>[batch, num_src, height, width, 3]\<close>: for every source frame and channel, the
  mean over the 3x3 spatial window, cut at the image border (the padding is not
  counted).
\<close>

definition pool_window :: "nat \<Rightarrow> nat \<Rightarrow> nat list" where
  "pool_window i n = [i - 1 ..< min n (i + 2)]"

definition average_pool :: "real list list list \<Rightarrow> real list list list" where
  "average_pool T =
     (let height = length T; width = length (hd T); channels = length (hd (hd T))
      in map (\<lambda>i. map (\<lambda>j. map (\<lambda>c.
               reduce_mean (concat (map (\<lambda>a. map (\<lambda>b. T ! a ! b ! c) (pool_window j width))
                                        (pool_window i height))))
             [0..<channels]) [0..<width]) [0..<height])"

text \<open>\<^verbatim>\<open>photometric_loss_ssim(synt_target, orig_target)\<close>, same shapes.\<close>

definition photometric_loss_ssim_slice :: "real list list list \<Rightarrow> real list list list \<Rightarrow> real" where
  "photometric_loss_ssim_slice synt_target orig_target =
     (let synt_target_gray = mat_map (\<lambda>px. [reduce_mean px]) synt_target;
          error_mask = t3_map (\<lambda>g. g = 0) synt_target_gray;
          x = orig_target;
          y = synt_target;
          c1 = (1 / 100)\<^sup>2;
          c2 = (3 / 100)\<^sup>2;
          mu_x = average_pool x;
          mu_y = average_pool y;
          sigma_x = t3_map2 (-) (average_pool (t3_map (\<lambda>v. v\<^sup>2) x)) (t3_map (\<lambda>v. v\<^sup>2) mu_x);
          sigma_y = t3_map2 (-) (average_pool (t3_map (\<lambda>v. v\<^sup>2) y)) (t3_map (\<lambda>v. v\<^sup>2) mu_y);
          sigma_xy = t3_map2 (-) (average_pool (t3_map2 (*) x y)) (t3_map2 (*) mu_x mu_y);
          ssim_n = t3_map2 (*)
                     (t3_map (\<lambda>v. v + c1) (t3_map2 (*) (t3_map (\<lambda>v. 2 * v) mu_x) mu_y))
                     (t3_map (\<lambda>v. 2 * v + c2) sigma_xy);
          ssim_d = t3_map2 (*)
                     (t3_map (\<lambda>v. v + c1)
                        (t3_map2 (+) (t3_map (\<lambda>v. v\<^sup>2) mu_x) (t3_map (\<lambda>v. v\<^sup>2) mu_y)))
                     (t3_map (\<lambda>v. v + c2) (t3_map2 (+) sigma_x sigma_y));
          ssim = t3_map2 (/) ssim_n ssim_d;
          ssim = t3_map (\<lambda>v. clip_by_value ((1 - v) / 2) 0 1) ssim;
          ssim = tf_where error_mask 0 ssim;
          ssim = reduce_mean (concat (concat ssim))
      in ssim)"

definition photometric_loss_ssim ::
  "real list list list list list \<Rightarrow> real list list list list \<Rightarrow> real list list" where
  "photometric_loss_ssim synt_target orig_target =
     map2 (\<lambda>synts orig. map (\<lambda>synt. photometric_loss_ssim_slice synt orig) synts)
          synt_target orig_target"

text \<open>
  The specification's reading of the L1 loss, for comparison with the code:
  \<open>kept_abs_errors\<close> lists the absolute differences of the pixels that are not masked
  (a masked pixel, whose synthesized channels have mean 0, contributes no entry), and
  \<open>masked_mean_l1_spec\<close> is their mean, so its denominator counts the kept entries
  only.
\<close>

definition kept_abs_errors :: "real list list list \<Rightarrow> real list list list \<Rightarrow> real list" where
  "kept_abs_errors synt_target orig_target =
     concat (concat (mat_map2
       (\<lambda>s t. if reduce_mean s = 0 then [] else map2 (\<lambda>a b. \<bar>a - b\<bar>) s t)
       synt_target orig_target))"

definition masked_mean_l1_spec :: "real list list list \<Rightarrow> real list list list \<Rightarrow> real" where
  "masked_mean_l1_spec synt_target orig_target =
     reduce_mean (kept_abs_errors synt_target orig_target)"

text \<open>A tensor of shape \<^verbatim>\<open>[H, W, C]\<close> given by its entries (used in the proofs).\<close>

definition tab3 :: "nat \<Rightarrow> nat \<Rightarrow> nat \<Rightarrow> (nat \<Rightarrow> nat \<Rightarrow> nat \<Rightarrow> 'a) \<Rightarrow> 'a list list list" where
  "tab3 H W C g = map (\<lambda>i. map (\<lambda>j. map (\<lambda>c. g i j c) [0..<C]) [0..<W]) [0..<H]"

text \<open>
  A synthesized 1x2 image whose first pixel is black, against a black target.
\<close>

definition ex_synt_target :: "real list list list list list" where
  "ex_synt_target = [[[[[0, 0, 0], [1, 1, 1]]]]]"

definition ex_orig_target :: "real list list list list" where
  "ex_orig_target = [[[[0, 0, 0], [0, 0, 0]]]]"

subsection \<open>The weights in binary32\<close>

text \<open>
  \<open>float32 x\<close> is the binary32 number nearest to \<open>x\<close>, ties to the even
  significand: 24 significant bits, exponents from -126 (below which the spacing stays
  2 to the -149) to 127; overflow to infinity is not modelled. The exponent is found by
  counting up from 0 or down from -1.
\<close>

definition round_half_even :: "real \<Rightarrow> int" where
  "round_half_even x =
     (let f = \<lfloor>x\<rfloor>; d = x - of_int f
      in if d < 1 / 2 then f else if 1 / 2 < d then f + 1 else if even f then f else f + 1)"

fun exponent_up :: "nat \<Rightarrow> int \<Rightarrow> real \<Rightarrow> int" where
  "exponent_up 0 e a = e"
| "exponent_up (Suc n) e a = (if a < 2 powi (e + 1) then e else exponent_up n (e + 1) a)"

fun exponent_down :: "nat \<Rightarrow> int \<Rightarrow> real \<Rightarrow> int" where
  "exponent_down 0 e a = e"
| "exponent_down (Suc n) e a = (if 2 powi e \<le> a then e else exponent_down n (e - 1) a)"

definition float32_exponent :: "real \<Rightarrow> int" where
  "float32_exponent x =
     (if 1 \<le> \<bar>x\<bar> then exponent_up 127 0 \<bar>x\<bar> else exponent_down 125 (- 1) \<bar>x\<bar>)"

definition float32 :: "real \<Rightarrow> real" where
  "float32 x =
     (let ulp = 2 powi (float32_exponent x - 23)
      in of_int (round_half_even (x / ulp)) * ulp)"

text \<open>
  \<open>calc_neighbor_weights\<close> on one slice with every subtraction and every product
  rounded to binary32, as the float32 tensors of the code have them. Floor, clamp and the
  mask are exact on binary32 numbers, so \<open>neighbor_int_pixels_slice\<close> and
  \<open>make_valid_mask_slice\<close> serve both readings.
\<close>

definition calc_neighbor_weights_slice_float32 ::
  "real list list \<Rightarrow> real list list \<Rightarrow> real list list \<Rightarrow> real list list" where
  "calc_neighbor_weights_slice_float32 pixel_coords pixel_floorceil valid_mask =
     (let ui = 0; vi = 1;
          uf = 0; uc = 1; vf = 2; vc = 3;
          sub = (\<lambda>a b. float32 (a - b));
          mul = (\<lambda>a b. float32 (a * b));
          w_uf = mat_map2 sub (slice_rows uc 1 pixel_floorceil) (slice_rows ui 1 pixel_coords);
          w_uc = mat_map2 sub (slice_rows ui 1 pixel_coords) (slice_rows uf 1 pixel_floorceil);
          w_vf = mat_map2 sub (slice_rows vc 1 pixel_floorceil) (slice_rows vi 1 pixel_coords);
          w_vc = mat_map2 sub (slice_rows vi 1 pixel_coords) (slice_rows vf 1 pixel_floorceil);
          w_ufvf = mat_map2 mul w_uf w_vf;
          w_ufvc = mat_map2 mul w_uf w_vc;
          w_ucvf = mat_map2 mul w_uc w_vf;
          w_ucvc = mat_map2 mul w_uc w_vc;
          weights = w_ufvf @ w_ufvc @ w_ucvf @ w_ucvc;
          weights = mat_map2 mul weights (broadcast_rows (length weights) valid_mask)
      in weights)"

text \<open>
  The coordinate u = 0.28555170, v = 0.13270012 as binary32 numbers, in a 4x4 image.
\<close>

definition ex_coords_float32 :: "real list list" where
  "ex_coords_float32 = [[9581525 / 33554432], [4452677 / 33554432]]"

definition ex_orig_white :: "real list list list list" where
  "ex_orig_white = [[[[1, 1, 1], [1, 1, 1]]]]"

subsection \<open>Warping the target pixels into the source frames\<close>














section \<open>Results\<close>

subsection \<open>Configuration errors\<close>

lemma PhotometricLossMultiScale_init_unknown:
  "method \<noteq> ''L1'' \<Longrightarrow> method \<noteq> ''SSIM'' \<Longrightarrow>
   PhotometricLossMultiScale_init method suffix =
     Inl (WrongInputException (''Wrong photometric loss name: '' @ method))"
  by (simp add: PhotometricLossMultiScale_init_def)

lemma StereoDepthLoss_init_unknown:
  "method \<noteq> ''L1'' \<Longrightarrow> method \<noteq> ''SSIM'' \<Longrightarrow>
   StereoDepthLoss_init method =
     Inl (WrongInputException (''Wrong photometric loss name: '' @ method))"
  by (simp add: StereoDepthLoss_init_def)

lemma activation_factory_never_raises: "activation_factory activ_name \<noteq> Inl e"
  by (simp add: activation_factory_def)

text \<open>
  C8. An unknown method name makes both loss constructors raise
  \<open>WrongInputException\<close> (the two lemmas above), but \<open>activation_factory\<close> with the
  unknown activation name \<open>Sigmoid\<close> raises nothing and returns \<^verbatim>\<open>None\<close>, while
  the sibling factory \<open>pose_net_factory\<close> raises on an unknown name.
\<close>

theorem activation_factory_unknown_returns_None:
  "activation_factory ''Sigmoid'' = Inr None \<and>
   pose_net_factory ''Sigmoid'' =
     Inl (WrongInputException ''[pose_net_factory] wrong pose net name: Sigmoid'') \<and>
   PhotometricLossMultiScale_init ''Sigmoid'' [] =
     Inl (WrongInputException ''Wrong photometric loss name: Sigmoid'') \<and>
   StereoDepthLoss_init ''Sigmoid'' =
     Inl (WrongInputException ''Wrong photometric loss name: Sigmoid'')"
  by (simp add: activation_factory_def pose_net_factory_def
      PhotometricLossMultiScale_init_def StereoDepthLoss_init_def)

subsection \<open>Intrinsic matrix per scale\<close>

lemma scale_intrinsic_length: "length (scale_intrinsic intrinsic scale) = length intrinsic"
  by (simp add: scale_intrinsic_def)

lemma scale_intrinsic_nth:
  assumes "b < length intrinsic"
  shows "scale_intrinsic intrinsic scale ! b =
         map (map (\<lambda>x. x / real_of_int scale)) (take 2 (intrinsic ! b)) @ [[0, 0, 1]]"
  using assms by (simp add: scale_intrinsic_def)

text \<open>
  C7. For a batch of 3x3 intrinsic matrices and a positive integer scale, the scaled
  matrix of every batch element has three rows: the first two are the input's first two
  rows with every entry divided by the scale, so each entry of the top-left 2x2 block is
  1/scale times the input's, and the third row is exactly [0, 0, 1].
\<close>

theorem scale_intrinsic_rows:
  assumes "b < length intrinsic"
    and "length (intrinsic ! b) = 3"
    and "0 < scale"
  shows "scale_intrinsic intrinsic scale ! b =
           [map (\<lambda>x. x / real_of_int scale) (intrinsic ! b ! 0),
            map (\<lambda>x. x / real_of_int scale) (intrinsic ! b ! 1),
            [0, 0, 1]]
         \<and> (\<forall>r < 2. \<forall>c < length (intrinsic ! b ! r).
               scale_intrinsic intrinsic scale ! b ! r ! c =
                 (1 / real_of_int scale) * (intrinsic ! b ! r ! c))"
proof -
  obtain r0 r1 r2 where rows: "intrinsic ! b = [r0, r1, r2]"
    using assms(2) by (auto simp: length_Suc_conv numeral_3_eq_3)
  have eq: "scale_intrinsic intrinsic scale ! b =
              [map (\<lambda>x. x / real_of_int scale) r0, map (\<lambda>x. x / real_of_int scale) r1, [0, 0, 1]]"
    using scale_intrinsic_nth [OF assms(1)] rows by simp
  have blk: "scale_intrinsic intrinsic scale ! b ! r ! c =
               (1 / real_of_int scale) * (intrinsic ! b ! r ! c)"
    if "r < 2" "c < length (intrinsic ! b ! r)" for r c
  proof -
    from that(1) have "r = 0 \<or> r = 1" by auto
    then show ?thesis using that(2) eq rows by auto
  qed
  from eq rows blk show ?thesis by simp
qed

theorem scale_intrinsic_rows_witness:
  "scale_intrinsic [[[50, 0, 32], [0, 50, 32], [0, 0, 1]]] 2 ! 0 =
     [[25, 0, 16], [0, 25, 16], [0, 0, 1]]"
proof -
  have "(0::nat) < length [[[50, 0, 32], [0, 50, 32], [0, 0, 1::real]]]" by simp
  moreover have "length ([[[50, 0, 32], [0, 50, 32], [0, 0, 1::real]]] ! 0) = 3" by simp
  moreover have "(0::int) < 2" by simp
  ultimately show ?thesis
    using scale_intrinsic_rows [of 0 "[[[50, 0, 32], [0, 50, 32], [0, 0, 1]]]" 2] by simp
qed

subsection \<open>Bilinear resampler\<close>

lemma shape2_nth: "shape2 a b T \<Longrightarrow> i < a \<Longrightarrow> length (T ! i) = b"
  by (simp add: shape2_def list_all_length)

lemma shape3_nth: "shape3 a b c T \<Longrightarrow> i < a \<Longrightarrow> shape2 b c (T ! i)"
  by (simp add: shape3_def list_all_length)

lemma shape4_nth: "shape4 a b c d T \<Longrightarrow> i < a \<Longrightarrow> shape3 b c d (T ! i)"
  by (simp add: shape4_def list_all_length)

lemma shape5_nth: "shape5 a b c d e T \<Longrightarrow> i < a \<Longrightarrow> shape4 b c d e (T ! i)"
  by (simp add: shape5_def list_all_length)

lemma shape2_length: "shape2 a b T \<Longrightarrow> length T = a" by (simp add: shape2_def)

lemma shape3_length: "shape3 a b c T \<Longrightarrow> length T = a" by (simp add: shape3_def)

lemma shape4_length: "shape4 a b c d T \<Longrightarrow> length T = a" by (simp add: shape4_def)

lemma shape5_length: "shape5 a b c d e T \<Longrightarrow> length T = a" by (simp add: shape5_def)

lemma slice_rows_single: "i < length A \<Longrightarrow> slice_rows i (Suc 0) A = [A ! i]"
  by (simp add: slice_rows_def Cons_nth_drop_Suc [symmetric])

lemma mat_map_single: "mat_map f [r] = [map f r]"
  by (simp add: mat_map_def)

lemma mat_map2_single: "mat_map2 f [r] [q] = [map2 f r q]"
  by (simp add: mat_map2_def)

lemma clamp_collapse:
  fixes f :: int and W :: nat
  shows "(clip_by_value (of_int f) 0 (real W - 1) + 1 = clip_by_value (of_int f + 1) 0 (real W - 1))
         \<longleftrightarrow> (0 \<le> f \<and> f + 2 \<le> int W)"
proof (cases "0 \<le> f \<and> f + 2 \<le> int W")
  case True
  then have "real_of_int f \<le> real W - 1" "real_of_int f + 1 \<le> real W - 1" "0 \<le> real_of_int f"
    by linarith+
  with True show ?thesis by (simp add: clip_by_value_def max_def min_def)
next
  case False
  then consider "f < 0" | "0 \<le> f" "int W - 1 \<le> f" by linarith
  then show ?thesis
  proof cases
    case 1
    then have "real_of_int f < 0" "real_of_int f + 1 \<le> 0" by linarith+
    then have "clip_by_value (of_int f) 0 (real W - 1) = 0"
      "clip_by_value (of_int f + 1) 0 (real W - 1) = 0"
      by (simp_all add: clip_by_value_def max_def min_def)
    with False show ?thesis by simp
  next
    case 2
    then have "real W - 1 \<le> real_of_int f" "real W - 1 \<le> real_of_int f + 1" by linarith+
    then have "clip_by_value (of_int f) 0 (real W - 1) = clip_by_value (of_int f + 1) 0 (real W - 1)"
      by (simp add: clip_by_value_def min_def)
    with False show ?thesis by simp
  qed
qed

lemma neighbor_int_pixels_slice_eq:
  assumes "2 \<le> length pc"
  shows "neighbor_int_pixels_slice pc height width =
     [map (\<lambda>x. clip_by_value (tf_floor x) 0 (real width - 1)) (pc ! 0),
      map (\<lambda>x. clip_by_value (tf_floor x + 1) 0 (real width - 1)) (pc ! 0),
      map (\<lambda>x. clip_by_value (tf_floor x) 0 (real height - 1)) (pc ! 1),
      map (\<lambda>x. clip_by_value (tf_floor x + 1) 0 (real height - 1)) (pc ! 1)]"
proof -
  from assms have "0 < length pc" "Suc 0 < length pc" by linarith+
  then have "slice_rows 0 1 pc = [pc ! 0]" "slice_rows 1 1 pc = [pc ! 1]"
    by (simp_all add: slice_rows_single)
  then show ?thesis
    by (simp add: neighbor_int_pixels_slice_def mat_map_single Let_def comp_def)
qed

lemma make_valid_mask_slice_eq:
  assumes "length fc = 4"
  shows "make_valid_mask_slice fc =
     [map2 (\<lambda>a b. if a then 1 else 0)
        (map2 (\<and>) (map2 (\<lambda>f c. f + 1 = c) (fc ! 0) (fc ! 1))
                    (map2 (\<lambda>f c. f + 1 = c) (fc ! 2) (fc ! 3)))
        (map2 (\<and>) (map2 (\<lambda>f c. f + 1 = c) (fc ! 0) (fc ! 1))
                    (map2 (\<lambda>f c. f + 1 = c) (fc ! 2) (fc ! 3)))]"
proof -
  have "slice_rows 0 1 fc = [fc ! 0]" "slice_rows 1 1 fc = [fc ! 1]"
       "slice_rows 2 1 fc = [fc ! 2]" "slice_rows 3 1 fc = [fc ! 3]"
    using assms by (simp_all add: slice_rows_single)
  then show ?thesis
    by (simp add: make_valid_mask_slice_def mat_map_single mat_map2_single Let_def zip_same_conv_map)
qed

lemma calc_neighbor_weights_slice_eq:
  assumes "2 \<le> length pc" and "length fc = 4" and "length m = 1"
  shows "calc_neighbor_weights_slice pc fc m =
     (let w_uf = map2 (-) (fc ! 1) (pc ! 0);
          w_uc = map2 (-) (pc ! 0) (fc ! 0);
          w_vf = map2 (-) (fc ! 3) (pc ! 1);
          w_vc = map2 (-) (pc ! 1) (fc ! 2)
      in [map2 (*) (map2 (*) w_uf w_vf) (m ! 0), map2 (*) (map2 (*) w_uf w_vc) (m ! 0),
          map2 (*) (map2 (*) w_uc w_vf) (m ! 0), map2 (*) (map2 (*) w_uc w_vc) (m ! 0)])"
proof -
  from assms have "0 < length pc" "Suc 0 < length pc" by linarith+
  then have pc: "slice_rows 0 (Suc 0) pc = [pc ! 0]" "slice_rows (Suc 0) (Suc 0) pc = [pc ! 1]"
    by (simp_all add: slice_rows_single)
  have fc: "slice_rows 0 (Suc 0) fc = [fc ! 0]" "slice_rows (Suc 0) (Suc 0) fc = [fc ! 1]"
       "slice_rows 2 (Suc 0) fc = [fc ! 2]" "slice_rows 3 (Suc 0) fc = [fc ! 3]"
    using assms(2) by (simp_all add: slice_rows_single)
  obtain r where m: "m = [r]"
    using assms(3) by (cases m) auto
  show ?thesis
    by (simp add: calc_neighbor_weights_slice_def pc fc m mat_map2_single Let_def
        broadcast_rows_def)
       (simp add: mat_map2_def)
qed

lemma length4_conv: "length xs = 4 \<longleftrightarrow> (\<exists>a b c d. xs = [a, b, c, d])"
  by (auto simp: length_Suc_conv eval_nat_numeral)

lemma neighbor_int_pixels_slice_shape:
  assumes "2 \<le> length pc" and "length (pc ! 0) = n" and "length (pc ! 1) = n"
  shows "shape2 4 n (neighbor_int_pixels_slice pc height width)"
  using assms by (simp add: neighbor_int_pixels_slice_eq shape2_def)

lemma make_valid_mask_slice_shape:
  assumes "shape2 4 n fc"
  shows "shape2 1 n (make_valid_mask_slice fc)"
proof -
  from assms obtain a b c d where fc: "fc = [a, b, c, d]"
    by (auto simp: shape2_def length4_conv)
  with assms show ?thesis
    by (simp add: make_valid_mask_slice_eq shape2_def)
qed

lemma make_valid_mask_slice_nth:
  assumes "shape2 4 n fc" and "k < n"
  shows "make_valid_mask_slice fc ! 0 ! k =
           (if fc ! 0 ! k + 1 = fc ! 1 ! k \<and> fc ! 2 ! k + 1 = fc ! 3 ! k then 1 else 0)"
proof -
  from assms obtain a b c d where fc: "fc = [a, b, c, d]"
    by (auto simp: shape2_def length4_conv)
  with assms show ?thesis
    by (simp add: make_valid_mask_slice_eq shape2_def)
qed

lemma calc_neighbor_weights_slice_shape:
  assumes "2 \<le> length pc" and "length (pc ! 0) = n" and "length (pc ! 1) = n"
    and "shape2 4 n fc" and "shape2 1 n m"
  shows "shape2 4 n (calc_neighbor_weights_slice pc fc m)"
proof -
  from assms(4) obtain a b c d where fc: "fc = [a, b, c, d]"
    by (auto simp: shape2_def length4_conv)
  from assms(5) obtain r where m: "m = [r]"
    by (cases m) (auto simp: shape2_def)
  have "length fc = 4" "length m = 1" using fc m by simp_all
  with assms show ?thesis
    by (simp add: calc_neighbor_weights_slice_eq Let_def) (simp add: fc m shape2_def)
qed

lemma calc_neighbor_weights_slice_nth:
  assumes "2 \<le> length pc" and "length (pc ! 0) = n" and "length (pc ! 1) = n"
    and "shape2 4 n fc" and "shape2 1 n m" and "k < n"
  shows "calc_neighbor_weights_slice pc fc m ! 0 ! k =
           (fc ! 1 ! k - pc ! 0 ! k) * (fc ! 3 ! k - pc ! 1 ! k) * m ! 0 ! k"
    and "calc_neighbor_weights_slice pc fc m ! 1 ! k =
           (fc ! 1 ! k - pc ! 0 ! k) * (pc ! 1 ! k - fc ! 2 ! k) * m ! 0 ! k"
    and "calc_neighbor_weights_slice pc fc m ! 2 ! k =
           (pc ! 0 ! k - fc ! 0 ! k) * (fc ! 3 ! k - pc ! 1 ! k) * m ! 0 ! k"
    and "calc_neighbor_weights_slice pc fc m ! 3 ! k =
           (pc ! 0 ! k - fc ! 0 ! k) * (pc ! 1 ! k - fc ! 2 ! k) * m ! 0 ! k"
proof -
  from assms(4) obtain a b c d where fc: "fc = [a, b, c, d]"
    by (auto simp: shape2_def length4_conv)
  from assms(5) obtain r where m: "m = [r]"
    by (cases m) (auto simp: shape2_def)
  have len: "length fc = 4" "length m = 1" using fc m by simp_all
  have eq: "calc_neighbor_weights_slice pc fc m =
     [map2 (*) (map2 (*) (map2 (-) b (pc ! 0)) (map2 (-) d (pc ! 1))) r,
      map2 (*) (map2 (*) (map2 (-) b (pc ! 0)) (map2 (-) (pc ! 1) c)) r,
      map2 (*) (map2 (*) (map2 (-) (pc ! 0) a) (map2 (-) d (pc ! 1))) r,
      map2 (*) (map2 (*) (map2 (-) (pc ! 0) a) (map2 (-) (pc ! 1) c)) r]"
    using calc_neighbor_weights_slice_eq [OF assms(1) len] by (simp add: Let_def fc m)
  have lens: "length a = n" "length b = n" "length c = n" "length d = n" "length r = n"
    using assms(4,5) by (simp_all add: fc m shape2_def)
  show "calc_neighbor_weights_slice pc fc m ! 0 ! k =
           (fc ! 1 ! k - pc ! 0 ! k) * (fc ! 3 ! k - pc ! 1 ! k) * m ! 0 ! k"
    unfolding eq using assms(2,3,6) lens by (simp add: fc m)
  show "calc_neighbor_weights_slice pc fc m ! 1 ! k =
           (fc ! 1 ! k - pc ! 0 ! k) * (pc ! 1 ! k - fc ! 2 ! k) * m ! 0 ! k"
    unfolding eq using assms(2,3,6) lens by (simp add: fc m)
  show "calc_neighbor_weights_slice pc fc m ! 2 ! k =
           (pc ! 0 ! k - fc ! 0 ! k) * (fc ! 3 ! k - pc ! 1 ! k) * m ! 0 ! k"
    unfolding eq using assms(2,3,6) lens by (simp add: fc m)
  show "calc_neighbor_weights_slice pc fc m ! 3 ! k =
           (pc ! 0 ! k - fc ! 0 ! k) * (pc ! 1 ! k - fc ! 2 ! k) * m ! 0 ! k"
    unfolding eq using assms(2,3,6) lens by (simp add: fc m)
qed

lemma neighbor_int_pixels_slice_nth:
  assumes "2 \<le> length pc" and "length (pc ! 0) = n" and "length (pc ! 1) = n" and "k < n"
  shows "neighbor_int_pixels_slice pc height width ! 0 ! k =
           clip_by_value (tf_floor (pc ! 0 ! k)) 0 (real width - 1)"
    and "neighbor_int_pixels_slice pc height width ! 1 ! k =
           clip_by_value (tf_floor (pc ! 0 ! k) + 1) 0 (real width - 1)"
    and "neighbor_int_pixels_slice pc height width ! 2 ! k =
           clip_by_value (tf_floor (pc ! 1 ! k)) 0 (real height - 1)"
    and "neighbor_int_pixels_slice pc height width ! 3 ! k =
           clip_by_value (tf_floor (pc ! 1 ! k) + 1) 0 (real height - 1)"
  using assms by (simp_all add: neighbor_int_pixels_slice_eq)

text \<open>Lifting to the batch and source axes.\<close>

lemma neighbor_int_pixels_nth:
  "b < length pc \<Longrightarrow> s < length (pc ! b) \<Longrightarrow>
   neighbor_int_pixels pc height width ! b ! s = neighbor_int_pixels_slice (pc ! b ! s) height width"
  by (simp add: neighbor_int_pixels_def)

lemma make_valid_mask_nth:
  "b < length fc \<Longrightarrow> s < length (fc ! b) \<Longrightarrow>
   make_valid_mask fc ! b ! s = make_valid_mask_slice (fc ! b ! s)"
  by (simp add: make_valid_mask_def)

lemma calc_neighbor_weights_nth:
  "b < length pc \<Longrightarrow> b < length fc \<Longrightarrow> b < length m \<Longrightarrow>
   s < length (pc ! b) \<Longrightarrow> s < length (fc ! b) \<Longrightarrow> s < length (m ! b) \<Longrightarrow>
   calc_neighbor_weights pc fc m ! b ! s =
     calc_neighbor_weights_slice (pc ! b ! s) (fc ! b ! s) (m ! b ! s)"
  by (simp add: calc_neighbor_weights_def)

lemma neighbor_int_pixels_length:
  "length (neighbor_int_pixels pc height width) = length pc"
  "b < length pc \<Longrightarrow> length (neighbor_int_pixels pc height width ! b) = length (pc ! b)"
  by (simp_all add: neighbor_int_pixels_def)

lemma make_valid_mask_length:
  "length (make_valid_mask fc) = length fc"
  "b < length fc \<Longrightarrow> length (make_valid_mask fc ! b) = length (fc ! b)"
  by (simp_all add: make_valid_mask_def)

lemma calc_neighbor_weights_length:
  "length (calc_neighbor_weights pc fc m) = min (length pc) (min (length fc) (length m))"
  "b < length pc \<Longrightarrow> b < length fc \<Longrightarrow> b < length m \<Longrightarrow>
   length (calc_neighbor_weights pc fc m ! b) =
     min (length (pc ! b)) (min (length (fc ! b)) (length (m ! b)))"
  by (simp_all add: calc_neighbor_weights_def)

lemma clamp_unclamped:
  fixes f :: int and W :: nat
  assumes "0 \<le> f" and "f + 2 \<le> int W"
  shows "clip_by_value (of_int f) 0 (real W - 1) = of_int f"
    and "clip_by_value (of_int f + 1) 0 (real W - 1) = of_int f + 1"
proof -
  from assms have "real_of_int f \<le> real W - 1" "real_of_int f + 1 \<le> real W - 1"
    "0 \<le> real_of_int f"
    by linarith+
  then show "clip_by_value (of_int f) 0 (real W - 1) = of_int f"
    and "clip_by_value (of_int f + 1) 0 (real W - 1) = of_int f + 1"
    by (simp_all add: clip_by_value_def max_def min_def)
qed

lemma pixel_coords_slice:
  assumes "shape4 B S R N pc" and "2 \<le> R" and "b < B" and "s < S"
  shows "b < length pc" and "s < length (pc ! b)"
    and "2 \<le> length (pc ! b ! s)"
    and "length (pc ! b ! s ! 0) = N" and "length (pc ! b ! s ! 1) = N"
proof -
  have s3: "shape3 S R N (pc ! b)" using assms(1,3) by (rule shape4_nth)
  have s2: "shape2 R N (pc ! b ! s)" using s3 assms(4) by (rule shape3_nth)
  show "b < length pc" using assms(1,3) by (simp add: shape4_length)
  show "s < length (pc ! b)" using s3 assms(4) by (simp add: shape3_length)
  show "2 \<le> length (pc ! b ! s)" using s2 assms(2) by (simp add: shape2_length)
  show "length (pc ! b ! s ! 0) = N" using s2 assms(2) by (intro shape2_nth [OF s2]) simp
  show "length (pc ! b ! s ! 1) = N" using s2 assms(2) by (intro shape2_nth [OF s2]) simp
qed

lemma resampler_slices:
  assumes "b < length pc" and "s < length (pc ! b)"
  shows "neighbor_int_pixels pc height width ! b ! s =
           neighbor_int_pixels_slice (pc ! b ! s) height width"
    and "make_valid_mask (neighbor_int_pixels pc height width) ! b ! s =
           make_valid_mask_slice (neighbor_int_pixels_slice (pc ! b ! s) height width)"
    and "calc_neighbor_weights pc (neighbor_int_pixels pc height width)
             (make_valid_mask (neighbor_int_pixels pc height width)) ! b ! s =
           calc_neighbor_weights_slice (pc ! b ! s)
             (neighbor_int_pixels_slice (pc ! b ! s) height width)
             (make_valid_mask_slice (neighbor_int_pixels_slice (pc ! b ! s) height width))"
  using assms
  by (simp_all add: neighbor_int_pixels_nth make_valid_mask_nth calc_neighbor_weights_nth
      neighbor_int_pixels_length make_valid_mask_length)

lemma adjacent_iff_unclamped:
  assumes "2 \<le> length pc" and "length (pc ! 0) = n" and "length (pc ! 1) = n" and "k < n"
  shows "(neighbor_int_pixels_slice pc height width ! 0 ! k + 1 =
            neighbor_int_pixels_slice pc height width ! 1 ! k) \<longleftrightarrow>
         (0 \<le> \<lfloor>pc ! 0 ! k\<rfloor> \<and> \<lfloor>pc ! 0 ! k\<rfloor> + 2 \<le> int width)"
    and "(neighbor_int_pixels_slice pc height width ! 2 ! k + 1 =
            neighbor_int_pixels_slice pc height width ! 3 ! k) \<longleftrightarrow>
         (0 \<le> \<lfloor>pc ! 1 ! k\<rfloor> \<and> \<lfloor>pc ! 1 ! k\<rfloor> + 2 \<le> int height)"
proof -
  note fv = neighbor_int_pixels_slice_nth [OF assms, of height width]
  show "(neighbor_int_pixels_slice pc height width ! 0 ! k + 1 =
            neighbor_int_pixels_slice pc height width ! 1 ! k) \<longleftrightarrow>
         (0 \<le> \<lfloor>pc ! 0 ! k\<rfloor> \<and> \<lfloor>pc ! 0 ! k\<rfloor> + 2 \<le> int width)"
    unfolding fv tf_floor_def by (rule clamp_collapse)
  show "(neighbor_int_pixels_slice pc height width ! 2 ! k + 1 =
            neighbor_int_pixels_slice pc height width ! 3 ! k) \<longleftrightarrow>
         (0 \<le> \<lfloor>pc ! 1 ! k\<rfloor> \<and> \<lfloor>pc ! 1 ! k\<rfloor> + 2 \<le> int height)"
    unfolding fv tf_floor_def by (rule clamp_collapse)
qed

lemma slice_mask_value:
  assumes "2 \<le> length pc" and "length (pc ! 0) = n" and "length (pc ! 1) = n" and "k < n"
  shows "make_valid_mask_slice (neighbor_int_pixels_slice pc height width) ! 0 ! k =
           (if neighbor_int_pixels_slice pc height width ! 0 ! k + 1 =
                 neighbor_int_pixels_slice pc height width ! 1 ! k \<and>
               neighbor_int_pixels_slice pc height width ! 2 ! k + 1 =
                 neighbor_int_pixels_slice pc height width ! 3 ! k
            then 1 else 0)"
  using assms(4) neighbor_int_pixels_slice_shape [OF assms(1-3)]
  by (rule make_valid_mask_slice_nth [rotated])

lemma slice_weights_value:
  fixes pc :: "real list list" and height width :: nat
  assumes "2 \<le> length pc" and "length (pc ! 0) = n" and "length (pc ! 1) = n" and "k < n"
  defines "fc \<equiv> neighbor_int_pixels_slice pc height width"
  defines "m \<equiv> make_valid_mask_slice fc"
  defines "w \<equiv> calc_neighbor_weights_slice pc fc m"
  shows "w ! 0 ! k = (fc ! 1 ! k - pc ! 0 ! k) * (fc ! 3 ! k - pc ! 1 ! k) * m ! 0 ! k"
    and "w ! 1 ! k = (fc ! 1 ! k - pc ! 0 ! k) * (pc ! 1 ! k - fc ! 2 ! k) * m ! 0 ! k"
    and "w ! 2 ! k = (pc ! 0 ! k - fc ! 0 ! k) * (fc ! 3 ! k - pc ! 1 ! k) * m ! 0 ! k"
    and "w ! 3 ! k = (pc ! 0 ! k - fc ! 0 ! k) * (pc ! 1 ! k - fc ! 2 ! k) * m ! 0 ! k"
proof -
  have shF: "shape2 4 n fc"
    unfolding fc_def using assms(1-3) by (rule neighbor_int_pixels_slice_shape)
  have shM: "shape2 1 n m"
    unfolding m_def using shF by (rule make_valid_mask_slice_shape)
  note calc_neighbor_weights_slice_nth [OF assms(1-3) shF shM assms(4)]
  then show "w ! 0 ! k = (fc ! 1 ! k - pc ! 0 ! k) * (fc ! 3 ! k - pc ! 1 ! k) * m ! 0 ! k"
    and "w ! 1 ! k = (fc ! 1 ! k - pc ! 0 ! k) * (pc ! 1 ! k - fc ! 2 ! k) * m ! 0 ! k"
    and "w ! 2 ! k = (pc ! 0 ! k - fc ! 0 ! k) * (fc ! 3 ! k - pc ! 1 ! k) * m ! 0 ! k"
    and "w ! 3 ! k = (pc ! 0 ! k - fc ! 0 ! k) * (pc ! 1 ! k - fc ! 2 ! k) * m ! 0 ! k"
    unfolding w_def by simp_all
qed

lemma less4_cases: "i < (4::nat) \<Longrightarrow> i = 0 \<or> i = 1 \<or> i = 2 \<or> i = 3"
  by arith

text \<open>
  C3. For every batch element \<open>b\<close>, source frame \<open>s\<close> and pixel \<open>k\<close>, the mask of
  \<open>make_valid_mask\<close> is 1 exactly when the clamped ceiling is the clamped floor plus one
  on both axes, and 0 otherwise; when that fails, all four weights of
  \<open>calc_neighbor_weights\<close> are 0. The condition holds exactly when neither clamp changed
  anything: \<open>0 \<le> floor u\<close>, \<open>floor u + 1 \<le> width - 1\<close>, and the same for \<open>v\<close>
  and the height. So a coordinate that a clamp touched, \<open>u = width - 1\<close> included, is
  invalid.
\<close>

theorem valid_mask_iff_neighbors_adjacent:
  assumes "shape4 B S R N pixel_coords" and "2 \<le> R" and "b < B" and "s < S" and "k < N"
  shows "let fc = neighbor_int_pixels pixel_coords height width;
             mask = make_valid_mask fc;
             weights = calc_neighbor_weights pixel_coords fc mask;
             adjacent = (fc ! b ! s ! 0 ! k + 1 = fc ! b ! s ! 1 ! k \<and>
                         fc ! b ! s ! 2 ! k + 1 = fc ! b ! s ! 3 ! k)
         in (mask ! b ! s ! 0 ! k = 1 \<longleftrightarrow> adjacent) \<and>
            (mask ! b ! s ! 0 ! k = 0 \<longleftrightarrow> \<not> adjacent) \<and>
            (\<not> adjacent \<longrightarrow> (\<forall>i < 4. weights ! b ! s ! i ! k = 0)) \<and>
            (adjacent \<longleftrightarrow>
               0 \<le> \<lfloor>pixel_coords ! b ! s ! 0 ! k\<rfloor> \<and>
               \<lfloor>pixel_coords ! b ! s ! 0 ! k\<rfloor> + 2 \<le> int width \<and>
               0 \<le> \<lfloor>pixel_coords ! b ! s ! 1 ! k\<rfloor> \<and>
               \<lfloor>pixel_coords ! b ! s ! 1 ! k\<rfloor> + 2 \<le> int height)"
proof -
  note sl = pixel_coords_slice [OF assms(1-4)]
  note eqs = resampler_slices [OF sl(1,2), of height width]
  note mv = slice_mask_value [OF sl(3-5) assms(5), of height width]
  note wv = slice_weights_value [OF sl(3-5) assms(5), of height width]
  note adj = adjacent_iff_unclamped [OF sl(3-5) assms(5), of height width]
  let ?fc = "neighbor_int_pixels_slice (pixel_coords ! b ! s) height width"
  let ?m = "make_valid_mask_slice ?fc"
  let ?w = "calc_neighbor_weights_slice (pixel_coords ! b ! s) ?fc ?m"
  let ?adj = "?fc ! 0 ! k + 1 = ?fc ! 1 ! k \<and> ?fc ! 2 ! k + 1 = ?fc ! 3 ! k"
  have 1: "?m ! 0 ! k = 1 \<longleftrightarrow> ?adj" using mv by simp
  have 2: "?m ! 0 ! k = 0 \<longleftrightarrow> \<not> ?adj" using mv by simp
  have 3: "?w ! i ! k = 0" if "\<not> ?adj" "i < 4" for i
  proof -
    from that(1) 2 have "?m ! 0 ! k = 0" by blast
    with wv less4_cases [OF that(2)] show ?thesis by auto
  qed
  have 4: "?adj \<longleftrightarrow>
               0 \<le> \<lfloor>pixel_coords ! b ! s ! 0 ! k\<rfloor> \<and>
               \<lfloor>pixel_coords ! b ! s ! 0 ! k\<rfloor> + 2 \<le> int width \<and>
               0 \<le> \<lfloor>pixel_coords ! b ! s ! 1 ! k\<rfloor> \<and>
               \<lfloor>pixel_coords ! b ! s ! 1 ! k\<rfloor> + 2 \<le> int height"
    using adj by blast
  show ?thesis
    unfolding Let_def eqs using 1 2 3 4 by blast
qed

text \<open>
  In exact arithmetic the four weight formulas sum to the mask value, and none is negative.
\<close>

lemma neighbor_weights_exact_sum:
  assumes "shape4 B S R N pixel_coords" and "2 \<le> R" and "b < B" and "s < S" and "k < N"
  shows "let fc = neighbor_int_pixels pixel_coords height width;
             mask = make_valid_mask fc;
             weights = calc_neighbor_weights pixel_coords fc mask;
             valid = (0 \<le> \<lfloor>pixel_coords ! b ! s ! 0 ! k\<rfloor> \<and>
                      \<lfloor>pixel_coords ! b ! s ! 0 ! k\<rfloor> + 2 \<le> int width \<and>
                      0 \<le> \<lfloor>pixel_coords ! b ! s ! 1 ! k\<rfloor> \<and>
                      \<lfloor>pixel_coords ! b ! s ! 1 ! k\<rfloor> + 2 \<le> int height)
         in weights ! b ! s ! 0 ! k + weights ! b ! s ! 1 ! k +
              weights ! b ! s ! 2 ! k + weights ! b ! s ! 3 ! k = mask ! b ! s ! 0 ! k \<and>
            mask ! b ! s ! 0 ! k = (if valid then 1 else 0) \<and>
            (\<forall>i < 4. 0 \<le> weights ! b ! s ! i ! k)"
proof -
  note sl = pixel_coords_slice [OF assms(1-4)]
  note eqs = resampler_slices [OF sl(1,2), of height width]
  note mv = slice_mask_value [OF sl(3-5) assms(5), of height width]
  note wv = slice_weights_value [OF sl(3-5) assms(5), of height width]
  note adj = adjacent_iff_unclamped [OF sl(3-5) assms(5), of height width]
  note fv = neighbor_int_pixels_slice_nth [OF sl(3-5) assms(5), of height width]
  let ?u = "pixel_coords ! b ! s ! 0 ! k"
  let ?v = "pixel_coords ! b ! s ! 1 ! k"
  let ?fc = "neighbor_int_pixels_slice (pixel_coords ! b ! s) height width"
  let ?m = "make_valid_mask_slice ?fc"
  let ?w = "calc_neighbor_weights_slice (pixel_coords ! b ! s) ?fc ?m"
  let ?valid = "0 \<le> \<lfloor>?u\<rfloor> \<and> \<lfloor>?u\<rfloor> + 2 \<le> int width \<and> 0 \<le> \<lfloor>?v\<rfloor> \<and> \<lfloor>?v\<rfloor> + 2 \<le> int height"
  have m: "?m ! 0 ! k = (if ?valid then 1 else 0)"
    using mv adj by auto
  have "?w ! 0 ! k + ?w ! 1 ! k + ?w ! 2 ! k + ?w ! 3 ! k = ?m ! 0 ! k \<and>
        (\<forall>i < 4. 0 \<le> ?w ! i ! k)"
  proof (cases ?valid)
    case False
    with m have "?m ! 0 ! k = 0" by simp
    with wv have "?w ! 0 ! k = 0" "?w ! 1 ! k = 0" "?w ! 2 ! k = 0" "?w ! 3 ! k = 0"
      by simp_all
    with \<open>?m ! 0 ! k = 0\<close> show ?thesis by (auto dest: less4_cases)
  next
    case True
    with m have m1: "?m ! 0 ! k = 1" by simp
    from True have tu: "0 \<le> \<lfloor>?u\<rfloor>" "\<lfloor>?u\<rfloor> + 2 \<le> int width"
      and tv: "0 \<le> \<lfloor>?v\<rfloor>" "\<lfloor>?v\<rfloor> + 2 \<le> int height"
      by blast+
    have f: "?fc ! 0 ! k = of_int \<lfloor>?u\<rfloor>" "?fc ! 1 ! k = of_int \<lfloor>?u\<rfloor> + 1"
      "?fc ! 2 ! k = of_int \<lfloor>?v\<rfloor>" "?fc ! 3 ! k = of_int \<lfloor>?v\<rfloor> + 1"
      unfolding fv tf_floor_def
      by (rule clamp_unclamped [OF tu] clamp_unclamped [OF tv])+
    have w: "?w ! 0 ! k = (of_int \<lfloor>?u\<rfloor> + 1 - ?u) * (of_int \<lfloor>?v\<rfloor> + 1 - ?v)"
      "?w ! 1 ! k = (of_int \<lfloor>?u\<rfloor> + 1 - ?u) * (?v - of_int \<lfloor>?v\<rfloor>)"
      "?w ! 2 ! k = (?u - of_int \<lfloor>?u\<rfloor>) * (of_int \<lfloor>?v\<rfloor> + 1 - ?v)"
      "?w ! 3 ! k = (?u - of_int \<lfloor>?u\<rfloor>) * (?v - of_int \<lfloor>?v\<rfloor>)"
      unfolding wv f m1 by simp_all
    have nn: "0 \<le> of_int \<lfloor>?u\<rfloor> + 1 - ?u" "0 \<le> ?u - of_int \<lfloor>?u\<rfloor>"
      "0 \<le> of_int \<lfloor>?v\<rfloor> + 1 - ?v" "0 \<le> ?v - of_int \<lfloor>?v\<rfloor>"
      by linarith+
    have sum: "?w ! 0 ! k + ?w ! 1 ! k + ?w ! 2 ! k + ?w ! 3 ! k = 1"
      unfolding w by (simp add: algebra_simps)
    have p: "0 \<le> ?w ! 0 ! k" "0 \<le> ?w ! 1 ! k" "0 \<le> ?w ! 2 ! k" "0 \<le> ?w ! 3 ! k"
      unfolding w using nn by simp_all
    have pos: "0 \<le> ?w ! i ! k" if "i < 4" for i
      using less4_cases [OF that] p by auto
    from sum pos m1 show ?thesis by simp
  qed
  with m show ?thesis
    unfolding Let_def eqs by blast
qed

lemma sample_neighbor_images_slice_eq:
  assumes "length fc = 4"
  shows "sample_neighbor_images_slice img fc =
     [gather_nd img (map cast_int32 (fc ! 2)) (map cast_int32 (fc ! 0)),
      gather_nd img (map cast_int32 (fc ! 3)) (map cast_int32 (fc ! 0)),
      gather_nd img (map cast_int32 (fc ! 2)) (map cast_int32 (fc ! 1)),
      gather_nd img (map cast_int32 (fc ! 3)) (map cast_int32 (fc ! 1))]"
proof -
  from assms obtain a b c d where fc: "fc = [a, b, c, d]"
    by (auto simp: length4_conv)
  show ?thesis
    by (simp add: sample_neighbor_images_slice_def fc mat_map_def slice_rows_def Let_def)
qed

lemma gather_nd_nth:
  "k < length rows \<Longrightarrow> k < length cols \<Longrightarrow>
   gather_nd params rows cols ! k = params ! nat (rows ! k) ! nat (cols ! k)"
  by (simp add: gather_nd_def)

lemma gather_nd_length: "length (gather_nd params rows cols) = min (length rows) (length cols)"
  by (simp add: gather_nd_def)

lemma sample_neighbor_images_slice_nth:
  assumes "shape2 4 n fc" and "k < n"
  shows "sample_neighbor_images_slice img fc ! 0 ! k =
           img ! nat (cast_int32 (fc ! 2 ! k)) ! nat (cast_int32 (fc ! 0 ! k))"
    and "sample_neighbor_images_slice img fc ! 1 ! k =
           img ! nat (cast_int32 (fc ! 3 ! k)) ! nat (cast_int32 (fc ! 0 ! k))"
    and "sample_neighbor_images_slice img fc ! 2 ! k =
           img ! nat (cast_int32 (fc ! 2 ! k)) ! nat (cast_int32 (fc ! 1 ! k))"
    and "sample_neighbor_images_slice img fc ! 3 ! k =
           img ! nat (cast_int32 (fc ! 3 ! k)) ! nat (cast_int32 (fc ! 1 ! k))"
    and "shape2 4 n (sample_neighbor_images_slice img fc)"
proof -
  from assms(1) obtain a b c d where fc: "fc = [a, b, c, d]"
    by (auto simp: shape2_def length4_conv)
  have lens: "length a = n" "length b = n" "length c = n" "length d = n"
    using assms(1) by (simp_all add: fc shape2_def)
  have eq: "sample_neighbor_images_slice img fc =
     [gather_nd img (map cast_int32 c) (map cast_int32 a),
      gather_nd img (map cast_int32 d) (map cast_int32 a),
      gather_nd img (map cast_int32 c) (map cast_int32 b),
      gather_nd img (map cast_int32 d) (map cast_int32 b)]"
    by (simp add: sample_neighbor_images_slice_eq fc)
  show "sample_neighbor_images_slice img fc ! 0 ! k =
           img ! nat (cast_int32 (fc ! 2 ! k)) ! nat (cast_int32 (fc ! 0 ! k))"
    unfolding eq using lens assms(2) by (simp add: fc gather_nd_nth)
  show "sample_neighbor_images_slice img fc ! 1 ! k =
           img ! nat (cast_int32 (fc ! 3 ! k)) ! nat (cast_int32 (fc ! 0 ! k))"
    unfolding eq using lens assms(2) by (simp add: fc gather_nd_nth)
  show "sample_neighbor_images_slice img fc ! 2 ! k =
           img ! nat (cast_int32 (fc ! 2 ! k)) ! nat (cast_int32 (fc ! 1 ! k))"
    unfolding eq using lens assms(2) by (simp add: fc gather_nd_nth)
  show "sample_neighbor_images_slice img fc ! 3 ! k =
           img ! nat (cast_int32 (fc ! 3 ! k)) ! nat (cast_int32 (fc ! 1 ! k))"
    unfolding eq using lens assms(2) by (simp add: fc gather_nd_nth)
  show "shape2 4 n (sample_neighbor_images_slice img fc)"
    unfolding eq using lens by (simp add: shape2_def gather_nd_length)
qed

lemma mat_map2_nth:
  "k < length A \<Longrightarrow> k < length B \<Longrightarrow> mat_map2 f A B ! k = map2 f (A ! k) (B ! k)"
  by (simp add: mat_map2_def)

lemma mat_map2_length: "length (mat_map2 f A B) = min (length A) (length B)"
  by (simp add: mat_map2_def)

lemma merge_images_slice_eq:
  "merge_images_slice [s0, s1, s2, s3] [w0, w1, w2, w3] =
     (let wt = (\<lambda>s w. map2 (\<lambda>px wk. map (\<lambda>ch. ch * wk) px) s w)
      in mat_map2 (+) (mat_map2 (+) (mat_map2 (+) (wt s0 w0) (wt s1 w1)) (wt s2 w2)) (wt s3 w3))"
  by (simp add: merge_images_slice_def reduce_sum_axis0_def mat_map_def Let_def
      mat_map2_def [of "\<lambda>px w. map (\<lambda>ch. ch * hd w) px"] zip_map2 case_prod_unfold comp_def)

lemma merge_images_slice_nth:
  assumes "shape2 4 n sampled" and "shape2 4 n weights" and "k < n"
  shows "merge_images_slice sampled weights ! k =
           map2 (+) (map2 (+) (map2 (+)
             (map (\<lambda>ch. ch * weights ! 0 ! k) (sampled ! 0 ! k))
             (map (\<lambda>ch. ch * weights ! 1 ! k) (sampled ! 1 ! k)))
             (map (\<lambda>ch. ch * weights ! 2 ! k) (sampled ! 2 ! k)))
             (map (\<lambda>ch. ch * weights ! 3 ! k) (sampled ! 3 ! k))"
    and "length (merge_images_slice sampled weights) = n"
proof -
  from assms(1) obtain s0 s1 s2 s3 where s: "sampled = [s0, s1, s2, s3]"
    by (auto simp: shape2_def length4_conv)
  from assms(2) obtain w0 w1 w2 w3 where w: "weights = [w0, w1, w2, w3]"
    by (auto simp: shape2_def length4_conv)
  have lens: "length s0 = n" "length s1 = n" "length s2 = n" "length s3 = n"
    "length w0 = n" "length w1 = n" "length w2 = n" "length w3 = n"
    using assms(1,2) by (simp_all add: s w shape2_def)
  show "merge_images_slice sampled weights ! k =
           map2 (+) (map2 (+) (map2 (+)
             (map (\<lambda>ch. ch * weights ! 0 ! k) (sampled ! 0 ! k))
             (map (\<lambda>ch. ch * weights ! 1 ! k) (sampled ! 1 ! k)))
             (map (\<lambda>ch. ch * weights ! 2 ! k) (sampled ! 2 ! k)))
             (map (\<lambda>ch. ch * weights ! 3 ! k) (sampled ! 3 ! k))"
    unfolding s w merge_images_slice_eq Let_def
    using lens assms(3) by (simp add: mat_map2_nth mat_map2_length)
  show "length (merge_images_slice sampled weights) = n"
    unfolding s w merge_images_slice_eq Let_def
    using lens by (simp add: mat_map2_length)
qed

lemma blend4_nth:
  fixes p0 p1 p2 p3 :: "real list"
  assumes "length p0 = C" and "length p1 = C" and "length p2 = C" and "length p3 = C"
  shows "length (map2 (+) (map2 (+) (map2 (+)
             (map (\<lambda>ch. ch * a0) p0) (map (\<lambda>ch. ch * a1) p1))
             (map (\<lambda>ch. ch * a2) p2)) (map (\<lambda>ch. ch * a3) p3)) = C"
    and "c < C \<Longrightarrow> map2 (+) (map2 (+) (map2 (+)
             (map (\<lambda>ch. ch * a0) p0) (map (\<lambda>ch. ch * a1) p1))
             (map (\<lambda>ch. ch * a2) p2)) (map (\<lambda>ch. ch * a3) p3) ! c =
           p0 ! c * a0 + p1 ! c * a1 + p2 ! c * a2 + p3 ! c * a3"
  using assms by simp_all

lemma nth_concat_rect:
  assumes "\<forall>r \<in> set xss. length r = m" and "i < length xss" and "j < m"
  shows "concat xss ! (i * m + j) = xss ! i ! j"
  using assms
proof (induction xss arbitrary: i)
  case Nil
  then show ?case by simp
next
  case (Cons r xss)
  show ?case
  proof (cases i)
    case 0
    with Cons.prems show ?thesis by (simp add: nth_append)
  next
    case (Suc i')
    with Cons.prems have "concat xss ! (i' * m + j) = xss ! i' ! j"
      by (intro Cons.IH) auto
    with Suc Cons.prems show ?thesis by (simp add: nth_append)
  qed
qed

lemma length_concat_rect:
  "\<forall>r \<in> set xss. length r = m \<Longrightarrow> length (concat xss) = length xss * m"
  by (induction xss) auto

lemma reshape_rows_nth:
  assumes "y < height" and "x < width" and "length flat = height * width"
  shows "reshape_rows height width flat ! y ! x = flat ! (y * width + x)"
proof -
  have "y * width + x < height * width"
  proof -
    have "y * width + x < y * width + width" using assms(2) by simp
    also have "\<dots> = Suc y * width" by simp
    also have "\<dots> \<le> height * width" using assms(1) by (intro mult_le_mono1) simp
    finally show ?thesis .
  qed
  then have "y * width + x < length flat" "y * width \<le> length flat"
    using assms(3) by linarith+
  with assms(1,2) show ?thesis
    by (simp add: reshape_rows_def)
qed

lemma reconstruct_bilinear_interp_unfold:
  "reconstruct_bilinear_interp pixel_coords img depth =
     map (map (reshape_rows (length (hd (hd img))) (length (hd (hd (hd img))))))
       (erase_invalid_pixels (interp_flat_image pixel_coords img) depth)"
  by (simp add: reconstruct_bilinear_interp_def interp_flat_image_def Let_def)

lemma map2_map2_nth:
  "b < length A \<Longrightarrow> b < length B \<Longrightarrow> s < length (A ! b) \<Longrightarrow> s < length (B ! b) \<Longrightarrow>
   map2 (map2 f) A B ! b ! s = f (A ! b ! s) (B ! b ! s)"
  by simp

lemma image_dims:
  assumes "shape5 B S H W C img" and "0 < B" and "0 < S" and "0 < H"
  shows "length (hd (hd img)) = H" and "length (hd (hd (hd img))) = W"
proof -
  from assms obtain i0 rest where img: "img = i0 # rest"
    by (cases img) (auto simp: shape5_def)
  with assms(1) have s4: "shape4 S H W C i0" by (simp add: shape5_def)
  with assms(3) obtain j0 rest' where i0: "i0 = j0 # rest'"
    by (cases i0) (auto simp: shape4_def)
  with s4 have s3: "shape3 H W C j0" by (simp add: shape4_def)
  with assms(4) obtain r0 rest'' where j0: "j0 = r0 # rest''"
    by (cases j0) (auto simp: shape3_def)
  with s3 have "shape2 W C r0" by (simp add: shape3_def)
  then show "length (hd (hd (hd img))) = W" by (simp add: img i0 j0 shape2_def)
  from s3 show "length (hd (hd img)) = H" by (simp add: img i0 shape3_def)
qed

lemma image_slice:
  assumes "shape5 B S H W C img" and "b < B" and "s < S"
  shows "b < length img" and "s < length (img ! b)" and "shape3 H W C (img ! b ! s)"
proof -
  have s4: "shape4 S H W C (img ! b)" using assms(1,2) by (rule shape5_nth)
  show "b < length img" using assms(1,2) by (simp add: shape5_length)
  show "s < length (img ! b)" using s4 assms(3) by (simp add: shape4_length)
  show "shape3 H W C (img ! b ! s)" using s4 assms(3) by (rule shape4_nth)
qed

lemma image_pixel_length:
  assumes "shape3 H W C im" and "y < H" and "x < W"
  shows "length (im ! y ! x) = C"
  using shape2_nth [OF shape3_nth [OF assms(1,2)] assms(3)] .

lemma interp_flat_image_nth:
  assumes "shape4 B S R N pc" and "2 \<le> R" and "shape5 B S H W C img"
    and "b < B" and "s < S" and "0 < H"
  shows "interp_flat_image pc img ! b ! s = interp_flat_slice (pc ! b ! s) (img ! b ! s) H W"
proof -
  note sl = pixel_coords_slice [OF assms(1,2,4,5)]
  note isl = image_slice [OF assms(3,4,5)]
  have dims: "length (hd (hd img)) = H" "length (hd (hd (hd img))) = W"
    using image_dims [OF assms(3) _ _ assms(6)] assms(4,5) by auto
  note eqs = resampler_slices [OF sl(1,2), of H W]
  have lw: "b < length (calc_neighbor_weights pc (neighbor_int_pixels pc H W)
             (make_valid_mask (neighbor_int_pixels pc H W)))"
    "s < length (calc_neighbor_weights pc (neighbor_int_pixels pc H W)
             (make_valid_mask (neighbor_int_pixels pc H W)) ! b)"
    using sl(1,2)
    by (simp_all add: calc_neighbor_weights_length neighbor_int_pixels_length
        make_valid_mask_length)
  have ls: "b < length (sample_neighbor_images img (neighbor_int_pixels pc H W))"
    "s < length (sample_neighbor_images img (neighbor_int_pixels pc H W) ! b)"
    "sample_neighbor_images img (neighbor_int_pixels pc H W) ! b ! s =
       sample_neighbor_images_slice (img ! b ! s) (neighbor_int_pixels pc H W ! b ! s)"
    using sl(1,2) isl(1,2)
    by (simp_all add: sample_neighbor_images_def neighbor_int_pixels_length)
  show ?thesis
    unfolding interp_flat_image_def Let_def dims merge_images_def
    by (simp only: map2_map2_nth [OF ls(1) lw(1) ls(2) lw(2)] ls(3) eqs
        interp_flat_slice_def Let_def)
qed

lemma cast_int32_of_int: "cast_int32 (of_int i) = i"
  by (simp add: cast_int32_def)

lemma clip_of_int:
  "clip_by_value (of_int f) 0 (real W - 1) = of_int (max (min f (int W - 1)) 0)"
  by (simp add: clip_by_value_def)

lemma gather_index_in_range:
  assumes "0 < W"
  shows "nat (cast_int32 (clip_by_value (tf_floor x) 0 (real W - 1))) < W"
    and "nat (cast_int32 (clip_by_value (tf_floor x + 1) 0 (real W - 1))) < W"
proof -
  have a: "tf_floor x + 1 = of_int (\<lfloor>x\<rfloor> + 1)" by (simp add: tf_floor_def)
  show "nat (cast_int32 (clip_by_value (tf_floor x) 0 (real W - 1))) < W"
    unfolding tf_floor_def clip_of_int cast_int32_of_int using assms by auto
  show "nat (cast_int32 (clip_by_value (tf_floor x + 1) 0 (real W - 1))) < W"
    unfolding a clip_of_int cast_int32_of_int using assms by auto
qed

lemma interp_flat_slice_pixel:
  fixes pc :: "real list list" and im :: "real list list list" and H W :: nat
  assumes "2 \<le> length pc" and "length (pc ! 0) = n" and "length (pc ! 1) = n" and "k < n"
    and "shape3 H W C im" and "0 < H" and "0 < W"
  defines "fc \<equiv> neighbor_int_pixels_slice pc H W"
  defines "w \<equiv> calc_neighbor_weights_slice pc fc (make_valid_mask_slice fc)"
  defines "uf \<equiv> nat (cast_int32 (fc ! 0 ! k))" and "uc \<equiv> nat (cast_int32 (fc ! 1 ! k))"
  defines "vf \<equiv> nat (cast_int32 (fc ! 2 ! k))" and "vc \<equiv> nat (cast_int32 (fc ! 3 ! k))"
  shows "length (interp_flat_slice pc im H W) = n"
    and "length (interp_flat_slice pc im H W ! k) = C"
    and "c < C \<Longrightarrow> interp_flat_slice pc im H W ! k ! c =
           im ! vf ! uf ! c * w ! 0 ! k + im ! vc ! uf ! c * w ! 1 ! k +
           im ! vf ! uc ! c * w ! 2 ! k + im ! vc ! uc ! c * w ! 3 ! k"
proof -
  have shF: "shape2 4 n fc"
    unfolding fc_def using assms(1-3) by (rule neighbor_int_pixels_slice_shape)
  have shM: "shape2 1 n (make_valid_mask_slice fc)"
    using shF by (rule make_valid_mask_slice_shape)
  have shW: "shape2 4 n w"
    unfolding w_def using assms(1-3) shF shM by (rule calc_neighbor_weights_slice_shape)
  note sm = sample_neighbor_images_slice_nth [OF shF assms(4), of im]
  note mg = merge_images_slice_nth [OF sm(5) shW assms(4)]
  note fv = neighbor_int_pixels_slice_nth [OF assms(1-4), of H W]
  have rng: "uf < W" "uc < W" "vf < H" "vc < H"
    unfolding uf_def uc_def vf_def vc_def fc_def fv
    using gather_index_in_range [OF assms(7)] gather_index_in_range [OF assms(6)] by blast+
  have len: "length (im ! vf ! uf) = C" "length (im ! vc ! uf) = C"
    "length (im ! vf ! uc) = C" "length (im ! vc ! uc) = C"
    using rng by (blast intro: image_pixel_length [OF assms(5)])+
  have eq: "interp_flat_slice pc im H W ! k =
           map2 (+) (map2 (+) (map2 (+)
             (map (\<lambda>ch. ch * w ! 0 ! k) (im ! vf ! uf))
             (map (\<lambda>ch. ch * w ! 1 ! k) (im ! vc ! uf)))
             (map (\<lambda>ch. ch * w ! 2 ! k) (im ! vf ! uc)))
             (map (\<lambda>ch. ch * w ! 3 ! k) (im ! vc ! uc))"
    unfolding interp_flat_slice_def Let_def
    unfolding fc_def [symmetric] w_def [symmetric] mg(1) sm(1-4)
    unfolding uf_def uc_def vf_def vc_def ..
  show "length (interp_flat_slice pc im H W) = n"
    unfolding interp_flat_slice_def Let_def
    unfolding fc_def [symmetric] w_def [symmetric] by (rule mg(2))
  show "length (interp_flat_slice pc im H W ! k) = C"
    unfolding eq by (rule blend4_nth(1) [OF len])
  show "interp_flat_slice pc im H W ! k ! c =
           im ! vf ! uf ! c * w ! 0 ! k + im ! vc ! uf ! c * w ! 1 ! k +
           im ! vf ! uc ! c * w ! 2 ! k + im ! vc ! uc ! c * w ! 3 ! k" if "c < C"
    unfolding eq by (rule blend4_nth(2) [OF len that])
qed

lemma floor_integer_coord: "\<lfloor>real iu\<rfloor> = int iu"
  by simp

lemma floor_midpoint_coord: "\<lfloor>real iu + 1 / 2\<rfloor> = int iu"
  by linarith

lemma interp_flat_slice_inner:
  fixes pc :: "real list list" and im :: "real list list list" and H W iu iv :: nat
  assumes "2 \<le> length pc" and "length (pc ! 0) = n" and "length (pc ! 1) = n" and "k < n"
    and "shape3 H W C im" and "iu + 1 < W" and "iv + 1 < H"
    and "\<lfloor>pc ! 0 ! k\<rfloor> = int iu" and "\<lfloor>pc ! 1 ! k\<rfloor> = int iv" and "c < C"
  shows "interp_flat_slice pc im H W ! k ! c =
           im ! iv ! iu ! c * ((real iu + 1 - pc ! 0 ! k) * (real iv + 1 - pc ! 1 ! k)) +
           im ! (iv + 1) ! iu ! c * ((real iu + 1 - pc ! 0 ! k) * (pc ! 1 ! k - real iv)) +
           im ! iv ! (iu + 1) ! c * ((pc ! 0 ! k - real iu) * (real iv + 1 - pc ! 1 ! k)) +
           im ! (iv + 1) ! (iu + 1) ! c * ((pc ! 0 ! k - real iu) * (pc ! 1 ! k - real iv))"
proof -
  let ?fc = "neighbor_int_pixels_slice pc H W"
  have pos: "0 < H" "0 < W" using assms(6,7) by simp_all
  note px = interp_flat_slice_pixel(3) [OF assms(1-5) pos assms(10)]
  note fv = neighbor_int_pixels_slice_nth [OF assms(1-4), of H W]
  note mv = slice_mask_value [OF assms(1-4), of H W]
  note wv = slice_weights_value [OF assms(1-4), of H W]
  have tu: "0 \<le> \<lfloor>pc ! 0 ! k\<rfloor>" "\<lfloor>pc ! 0 ! k\<rfloor> + 2 \<le> int W"
    and tv: "0 \<le> \<lfloor>pc ! 1 ! k\<rfloor>" "\<lfloor>pc ! 1 ! k\<rfloor> + 2 \<le> int H"
    unfolding assms(8,9) using assms(6,7) by simp_all
  have f: "?fc ! 0 ! k = real iu" "?fc ! 1 ! k = real iu + 1"
    "?fc ! 2 ! k = real iv" "?fc ! 3 ! k = real iv + 1"
    unfolding fv tf_floor_def
    using clamp_unclamped [OF tu] clamp_unclamped [OF tv] unfolding assms(8,9) by simp_all
  have m1: "make_valid_mask_slice ?fc ! 0 ! k = 1"
    unfolding mv f by simp
  have ci: "nat (cast_int32 (real iu)) = iu" "nat (cast_int32 (real iu + 1)) = iu + 1"
    "nat (cast_int32 (real iv)) = iv" "nat (cast_int32 (real iv + 1)) = iv + 1"
    by (simp_all add: cast_int32_def)
  show ?thesis
    unfolding px wv f m1 ci by simp
qed

lemma interp_flat_slice_invalid:
  fixes pc :: "real list list" and im :: "real list list list" and H W :: nat
  assumes "2 \<le> length pc" and "length (pc ! 0) = n" and "length (pc ! 1) = n" and "k < n"
    and "shape3 H W C im" and "0 < H" and "0 < W"
    and "\<not> (0 \<le> \<lfloor>pc ! 0 ! k\<rfloor> \<and> \<lfloor>pc ! 0 ! k\<rfloor> + 2 \<le> int W \<and>
            0 \<le> \<lfloor>pc ! 1 ! k\<rfloor> \<and> \<lfloor>pc ! 1 ! k\<rfloor> + 2 \<le> int H)"
  shows "interp_flat_slice pc im H W ! k = replicate C 0"
proof (rule nth_equalityI)
  note px = interp_flat_slice_pixel [OF assms(1-7)]
  note mv = slice_mask_value [OF assms(1-4), of H W]
  note wv = slice_weights_value [OF assms(1-4), of H W]
  note adj = adjacent_iff_unclamped [OF assms(1-4), of H W]
  let ?fc = "neighbor_int_pixels_slice pc H W"
  have m0: "make_valid_mask_slice ?fc ! 0 ! k = 0"
    unfolding mv using adj assms(8) by auto
  show "length (interp_flat_slice pc im H W ! k) = length (replicate C (0::real))"
    using px(2) by simp
  show "interp_flat_slice pc im H W ! k ! c = replicate C 0 ! c"
    if "c < length (interp_flat_slice pc im H W ! k)" for c
  proof -
    from that have c: "c < C" using px(2) by simp
    show ?thesis unfolding px(3) [OF c] wv m0 using c by simp
  qed
qed

lemma interp_flat_image_length:
  "length (interp_flat_image pc img) = min (length img) (length pc)"
  "b < length img \<Longrightarrow> b < length pc \<Longrightarrow>
   length (interp_flat_image pc img ! b) = min (length (img ! b)) (length (pc ! b))"
  by (simp_all add: interp_flat_image_def Let_def merge_images_def sample_neighbor_images_def
      calc_neighbor_weights_def neighbor_int_pixels_def make_valid_mask_def)

lemma depth_vec_nth:
  assumes "shape3 H W 1 d" and "y < H" and "x < W"
  shows "concat (concat d) ! (y * W + x) = d ! y ! x ! 0"
    and "length (concat (concat d)) = H * W"
proof -
  have rows: "\<forall>r \<in> set d. length r = W"
    using assms(1) by (auto simp: shape3_def shape2_def list_all_iff)
  have len_d: "length d = H" using assms(1) by (simp add: shape3_def)
  have ones: "\<forall>p \<in> set (concat d). length p = 1"
    using assms(1) by (auto simp: shape3_def shape2_def list_all_iff)
  have len1: "length (concat d) = H * W"
    using length_concat_rect [OF rows] len_d by simp
  have "y * W + x < Suc y * W" using assms(3) by simp
  also have "\<dots> \<le> H * W" using assms(2) by (intro mult_le_mono1) simp
  finally have k: "y * W + x < length (concat d)" using len1 by simp
  have "concat (concat d) ! ((y * W + x) * 1 + 0) = concat d ! (y * W + x) ! 0"
    using ones k by (intro nth_concat_rect) simp_all
  also have "concat d ! (y * W + x) = d ! y ! x"
    using rows assms(2,3) len_d by (intro nth_concat_rect) simp_all
  finally show "concat (concat d) ! (y * W + x) = d ! y ! x ! 0" by simp
  show "length (concat (concat d)) = H * W"
    using length_concat_rect [OF ones] len1 by simp
qed

lemma flat_index_less:
  fixes y x H W :: nat
  assumes "y < H" and "x < W"
  shows "y * W + x < H * W"
proof -
  have "y * W + x < Suc y * W" using assms(2) by simp
  also have "\<dots> \<le> H * W" using assms(1) by (intro mult_le_mono1) simp
  finally show ?thesis .
qed

lemma map_If_False: "map (If False a) xs = xs"
  by (induction xs) simp_all

lemma map_If_True: "map (If True a) xs = map (\<lambda>ch. a) xs"
  by (induction xs) simp_all

lemma erase_invalid_pixels_nth:
  assumes "b < length flat" and "s < length (flat ! b)" and "length (flat ! b ! s) = H * W"
    and "shape4 B H W 1 depth" and "b < B" and "y < H" and "x < W"
  shows "erase_invalid_pixels flat depth ! b ! s ! (y * W + x) =
           (if depth ! b ! y ! x ! 0 = 0 then map (\<lambda>ch. 0) (flat ! b ! s ! (y * W + x))
            else flat ! b ! s ! (y * W + x))"
    and "length (erase_invalid_pixels flat depth ! b ! s) = H * W"
proof -
  have d3: "shape3 H W 1 (depth ! b)" using assms(4,5) by (rule shape4_nth)
  have bd: "b < length depth" using assms(4,5) by (simp add: shape4_length)
  note dv = depth_vec_nth [OF d3 assms(6,7)]
  have k: "y * W + x < H * W" using assms(6,7) by (rule flat_index_less)
  have row: "erase_invalid_pixels flat depth ! b ! s =
        map2 (\<lambda>px m. map (\<lambda>ch. if hd m then 0 else ch) px) (flat ! b ! s)
          (mat_map (\<lambda>x. x = 0) (map (\<lambda>x. [x]) (concat (concat (depth ! b)))))"
    using assms(1,2) bd by (simp add: erase_invalid_pixels_def Let_def)
  show "length (erase_invalid_pixels flat depth ! b ! s) = H * W"
    unfolding row using assms(3) dv(2) by (simp add: mat_map_def)
  show "erase_invalid_pixels flat depth ! b ! s ! (y * W + x) =
           (if depth ! b ! y ! x ! 0 = 0 then map (\<lambda>ch. 0) (flat ! b ! s ! (y * W + x))
            else flat ! b ! s ! (y * W + x))"
    unfolding row using assms(3) dv k by (simp add: mat_map_def map_If_False map_If_True)
qed

text \<open>
  C10. \<open>erase_invalid_pixels\<close> leaves every pixel whose target depth is not zero as it
  was: for every batch element, source frame and pixel position \<open>(y, x)\<close> with nonzero
  depth, the output pixel (at the flat index \<open>y * W + x\<close>) is the input pixel.
\<close>

theorem erase_invalid_pixels_keeps_valid_depth:
  assumes "shape4 B S (H * W) C flat_image" and "shape4 B H W 1 depth"
    and "b < B" and "s < S" and "y < H" and "x < W"
    and "depth ! b ! y ! x ! 0 \<noteq> 0"
  shows "erase_invalid_pixels flat_image depth ! b ! s ! (y * W + x) =
           flat_image ! b ! s ! (y * W + x)"
proof -
  have s3: "shape3 S (H * W) C (flat_image ! b)" using assms(1,3) by (rule shape4_nth)
  have s2: "shape2 (H * W) C (flat_image ! b ! s)" using s3 assms(4) by (rule shape3_nth)
  have l: "b < length flat_image" "s < length (flat_image ! b)"
    "length (flat_image ! b ! s) = H * W"
    using assms(1,3,4) s3 s2 by (simp_all add: shape4_length shape3_length shape2_length)
  show ?thesis
    using erase_invalid_pixels_nth(1) [OF l assms(2,3,5,6)] assms(7) by simp
qed

text \<open>
  C2. For every batch element, source frame and pixel \<open>(y, x)\<close> of the output of
  \<open>reconstruct_bilinear_interp\<close>: if the target depth at \<open>(y, x)\<close> is zero, the three
  channels of the output pixel are zero, whatever the source image and the warp
  coordinates are.
\<close>

theorem reconstruct_zero_depth_is_black:
  assumes "shape4 B S R (H * W) pixel_coords" and "2 \<le> R"
    and "shape5 B S H W 3 img" and "shape4 B H W 1 depth"
    and "b < B" and "s < S" and "y < H" and "x < W"
    and "depth ! b ! y ! x ! 0 = 0"
  shows "reconstruct_bilinear_interp pixel_coords img depth ! b ! s ! y ! x = [0, 0, 0]"
proof -
  have pos: "0 < H" "0 < W" "0 < B" "0 < S" using assms(5-8) by simp_all
  have dims: "length (hd (hd img)) = H" "length (hd (hd (hd img))) = W"
    using image_dims [OF assms(3) pos(3,4,1)] .
  note sl = pixel_coords_slice [OF assms(1,2,5,6)]
  note isl = image_slice [OF assms(3,5,6)]
  have k: "y * W + x < H * W" using assms(7,8) by (rule flat_index_less)
  let ?flat = "interp_flat_image pixel_coords img"
  have fl: "b < length ?flat" "s < length (?flat ! b)"
    using sl(1,2) isl(1,2) by (simp_all add: interp_flat_image_length)
  have eq: "?flat ! b ! s =
      interp_flat_slice (pixel_coords ! b ! s) (img ! b ! s) H W"
    using assms(1,2,3,5,6) pos(1) by (rule interp_flat_image_nth)
  note px = interp_flat_slice_pixel(1,2) [OF sl(3-5) k isl(3) pos(1,2)]
  have len: "length (?flat ! b ! s) = H * W" unfolding eq by (rule px(1))
  have plen: "length (?flat ! b ! s ! (y * W + x)) = 3" unfolding eq by (rule px(2))
  note er = erase_invalid_pixels_nth [OF fl len assms(4,5,7,8)]
  have el: "b < length (erase_invalid_pixels ?flat depth)"
    "s < length (erase_invalid_pixels ?flat depth ! b)"
    using fl assms(4,5)
    by (simp_all add: erase_invalid_pixels_def Let_def shape4_length)
  have "reconstruct_bilinear_interp pixel_coords img depth ! b ! s ! y ! x =
        reshape_rows H W (erase_invalid_pixels ?flat depth ! b ! s) ! y ! x"
    unfolding reconstruct_bilinear_interp_unfold dims using el by simp
  also have "\<dots> = erase_invalid_pixels ?flat depth ! b ! s ! (y * W + x)"
    using assms(7,8) er(2) by (rule reshape_rows_nth)
  also have "\<dots> = map (\<lambda>ch. 0) (?flat ! b ! s ! (y * W + x))"
    unfolding er(1) using assms(9) by simp
  also have "\<dots> = [0, 0, 0]"
    using plen by (simp add: length_Suc_conv eval_nat_numeral) auto
  finally show ?thesis .
qed

text \<open>
  C6, amended. Sampling at an integer coordinate \<open>(iu, iv)\<close> returns the source pixel
  at that coordinate when \<open>iu \<le> W - 2\<close> and \<open>iv \<le> H - 2\<close>; at an integer
  coordinate of the last column or the last row the mask is 0 and the resampler returns
  the zero pixel. Sampling at the midpoint \<open>(iu + 1/2, iv + 1/2)\<close> of four neighbours
  inside the image returns their average in every channel.
\<close>

theorem bilinear_resampler_integer_and_midpoint:
  assumes "shape4 B S R (H * W) pixel_coords" and "2 \<le> R"
    and "shape5 B S H W C img"
    and "b < B" and "s < S" and "k < H * W" and "iu < W" and "iv < H"
  shows "(pixel_coords ! b ! s ! 0 ! k = real iu \<and> pixel_coords ! b ! s ! 1 ! k = real iv \<and>
          iu + 1 < W \<and> iv + 1 < H \<longrightarrow>
            interp_flat_image pixel_coords img ! b ! s ! k = img ! b ! s ! iv ! iu) \<and>
         (pixel_coords ! b ! s ! 0 ! k = real iu \<and> pixel_coords ! b ! s ! 1 ! k = real iv \<and>
          (iu + 1 = W \<or> iv + 1 = H) \<longrightarrow>
            interp_flat_image pixel_coords img ! b ! s ! k = replicate C 0) \<and>
         (pixel_coords ! b ! s ! 0 ! k = real iu + 1 / 2 \<and>
          pixel_coords ! b ! s ! 1 ! k = real iv + 1 / 2 \<and> iu + 1 < W \<and> iv + 1 < H \<longrightarrow>
            (\<forall>c < C. interp_flat_image pixel_coords img ! b ! s ! k ! c =
               (img ! b ! s ! iv ! iu ! c + img ! b ! s ! (iv + 1) ! iu ! c +
                img ! b ! s ! iv ! (iu + 1) ! c + img ! b ! s ! (iv + 1) ! (iu + 1) ! c) / 4))"
proof -
  have pos: "0 < H" "0 < W" using assms(7,8) by simp_all
  note sl = pixel_coords_slice [OF assms(1,2,4,5)]
  note isl = image_slice [OF assms(3,4,5)]
  let ?pc = "pixel_coords ! b ! s"
  let ?im = "img ! b ! s"
  have eq: "interp_flat_image pixel_coords img ! b ! s = interp_flat_slice ?pc ?im H W"
    using assms(1,2,3,4,5) pos(1) by (rule interp_flat_image_nth)
  note px = interp_flat_slice_pixel(2) [OF sl(3-5) assms(6) isl(3) pos]
  have 1: "interp_flat_slice ?pc ?im H W ! k = ?im ! iv ! iu"
    if h: "?pc ! 0 ! k = real iu" "?pc ! 1 ! k = real iv" "iu + 1 < W" "iv + 1 < H"
  proof (rule nth_equalityI)
    have il: "length (?im ! iv ! iu) = C"
      using isl(3) assms(8,7) by (rule image_pixel_length)
    show "length (interp_flat_slice ?pc ?im H W ! k) = length (?im ! iv ! iu)"
      using px il by simp
    fix c assume "c < length (interp_flat_slice ?pc ?im H W ! k)"
    then have c: "c < C" using px by simp
    have fl: "\<lfloor>?pc ! 0 ! k\<rfloor> = int iu" "\<lfloor>?pc ! 1 ! k\<rfloor> = int iv"
      unfolding h(1,2) by simp_all
    show "interp_flat_slice ?pc ?im H W ! k ! c = ?im ! iv ! iu ! c"
      unfolding interp_flat_slice_inner [OF sl(3-5) assms(6) isl(3) h(3,4) fl c]
      unfolding h(1,2) by simp
  qed
  have 2: "interp_flat_slice ?pc ?im H W ! k = replicate C 0"
    if h: "?pc ! 0 ! k = real iu" "?pc ! 1 ! k = real iv" "iu + 1 = W \<or> iv + 1 = H"
  proof -
    have "\<not> (0 \<le> \<lfloor>?pc ! 0 ! k\<rfloor> \<and> \<lfloor>?pc ! 0 ! k\<rfloor> + 2 \<le> int W \<and>
            0 \<le> \<lfloor>?pc ! 1 ! k\<rfloor> \<and> \<lfloor>?pc ! 1 ! k\<rfloor> + 2 \<le> int H)"
      unfolding h(1,2) using h(3) by auto
    with sl(3-5) assms(6) isl(3) pos show ?thesis
      by (rule interp_flat_slice_invalid)
  qed
  have 3: "interp_flat_slice ?pc ?im H W ! k ! c =
               (?im ! iv ! iu ! c + ?im ! (iv + 1) ! iu ! c +
                ?im ! iv ! (iu + 1) ! c + ?im ! (iv + 1) ! (iu + 1) ! c) / 4"
    if h: "?pc ! 0 ! k = real iu + 1 / 2" "?pc ! 1 ! k = real iv + 1 / 2"
      "iu + 1 < W" "iv + 1 < H" and c: "c < C" for c
  proof -
    have fl: "\<lfloor>?pc ! 0 ! k\<rfloor> = int iu" "\<lfloor>?pc ! 1 ! k\<rfloor> = int iv"
      unfolding h(1,2) by (rule floor_midpoint_coord)+
    show ?thesis
      unfolding interp_flat_slice_inner [OF sl(3-5) assms(6) isl(3) h(3,4) fl c]
      unfolding h(1,2) by (simp add: field_simps)
  qed
  show ?thesis
    unfolding eq using 1 2 3 by blast
qed

subsection \<open>The example, evaluated\<close>

lemma ex_pixel_coords_shape: "shape4 1 1 3 4 ex_pixel_coords"
  by (simp add: ex_pixel_coords_def shape4_def shape3_def shape2_def)

lemma ex_pixel_coords_shape_hw: "shape4 1 1 3 (2 * 2) ex_pixel_coords"
  by (simp add: ex_pixel_coords_def shape4_def shape3_def shape2_def)

lemma ex_image_shape: "shape5 1 1 2 2 3 ex_image"
  by (simp add: ex_image_def shape5_def shape4_def shape3_def shape2_def)

lemma ex_depth_shape: "shape4 1 2 2 1 ex_depth"
  by (simp add: ex_depth_def shape4_def shape3_def shape2_def)

lemma ex_pixel_coords_values:
  "ex_pixel_coords ! 0 ! 0 ! 0 ! 0 = 0" "ex_pixel_coords ! 0 ! 0 ! 1 ! 0 = 0"
  "ex_pixel_coords ! 0 ! 0 ! 0 ! 1 = 1" "ex_pixel_coords ! 0 ! 0 ! 1 ! 1 = 1"
  "ex_pixel_coords ! 0 ! 0 ! 0 ! 2 = 1 / 2" "ex_pixel_coords ! 0 ! 0 ! 1 ! 2 = 1 / 2"
  by (simp_all add: ex_pixel_coords_def)

theorem valid_mask_iff_neighbors_adjacent_witness:
  "let fc = neighbor_int_pixels ex_pixel_coords 2 2;
       mask = make_valid_mask fc;
       weights = calc_neighbor_weights ex_pixel_coords fc mask
   in mask ! 0 ! 0 ! 0 ! 1 = 0 \<and> (\<forall>i < 4. weights ! 0 ! 0 ! i ! 1 = 0) \<and>
      mask ! 0 ! 0 ! 0 ! 2 = 1"
  using valid_mask_iff_neighbors_adjacent [OF ex_pixel_coords_shape, of 0 0 1 2 2]
    valid_mask_iff_neighbors_adjacent [OF ex_pixel_coords_shape, of 0 0 2 2 2]
    ex_pixel_coords_values
  by (simp add: Let_def)

lemma ex_image_values:
  "ex_image ! 0 ! 0 ! 0 ! 0 = [1, 2, 3]" "ex_image ! 0 ! 0 ! 0 ! 1 = [4, 5, 6]"
  "ex_image ! 0 ! 0 ! 1 ! 0 = [7, 8, 9]" "ex_image ! 0 ! 0 ! 1 ! 1 = [10, 11, 13]"
  by (simp_all add: ex_image_def)

theorem bilinear_resampler_integer_and_midpoint_witness:
  "interp_flat_image ex_pixel_coords ex_image ! 0 ! 0 ! 0 = [1, 2, 3] \<and>
   interp_flat_image ex_pixel_coords ex_image ! 0 ! 0 ! 1 = [0, 0, 0] \<and>
   interp_flat_image ex_pixel_coords ex_image ! 0 ! 0 ! 2 ! 0 = 11 / 2 \<and>
   interp_flat_image ex_pixel_coords ex_image ! 0 ! 0 ! 2 ! 1 = 13 / 2 \<and>
   interp_flat_image ex_pixel_coords ex_image ! 0 ! 0 ! 2 ! 2 = 31 / 4"
proof -
  note t = bilinear_resampler_integer_and_midpoint
      [OF ex_pixel_coords_shape_hw _ ex_image_shape]
  have t0: "interp_flat_image ex_pixel_coords ex_image ! 0 ! 0 ! 0 = ex_image ! 0 ! 0 ! 0 ! 0"
    using t [of 0 0 0 0 0] ex_pixel_coords_values(1,2) by simp
  have t1: "interp_flat_image ex_pixel_coords ex_image ! 0 ! 0 ! 1 = replicate 3 0"
    using t [of 0 0 1 1 1] ex_pixel_coords_values(3,4) by simp
  have t2: "\<forall>c < 3. interp_flat_image ex_pixel_coords ex_image ! 0 ! 0 ! 2 ! c =
               (ex_image ! 0 ! 0 ! 0 ! 0 ! c + ex_image ! 0 ! 0 ! (0 + 1) ! 0 ! c +
                ex_image ! 0 ! 0 ! 0 ! (0 + 1) ! c + ex_image ! 0 ! 0 ! (0 + 1) ! (0 + 1) ! c) / 4"
    using t [of 0 0 2 0 0] ex_pixel_coords_values(5,6) by simp
  have a: "interp_flat_image ex_pixel_coords ex_image ! 0 ! 0 ! 0 = [1, 2, 3]"
    unfolding t0 by (rule ex_image_values)
  have b: "interp_flat_image ex_pixel_coords ex_image ! 0 ! 0 ! 1 = [0, 0, 0]"
    unfolding t1 by (simp add: eval_nat_numeral)
  have c: "interp_flat_image ex_pixel_coords ex_image ! 0 ! 0 ! 2 ! 0 = 11 / 2"
    "interp_flat_image ex_pixel_coords ex_image ! 0 ! 0 ! 2 ! 1 = 13 / 2"
    "interp_flat_image ex_pixel_coords ex_image ! 0 ! 0 ! 2 ! 2 = 31 / 4"
    using t2 [rule_format, of 0] t2 [rule_format, of 1] t2 [rule_format, of 2] ex_image_values
    by simp_all
  from a b c show ?thesis by blast
qed

theorem bilinear_resampler_last_column_counterexample:
  "ex_pixel_coords ! 0 ! 0 ! 0 ! 1 = real 1 \<and> ex_pixel_coords ! 0 ! 0 ! 1 ! 1 = real 1 \<and>
   (1::nat) < 2 \<and>
   interp_flat_image ex_pixel_coords ex_image ! 0 ! 0 ! 1 \<noteq> ex_image ! 0 ! 0 ! 1 ! 1"
proof -
  have eq: "interp_flat_image ex_pixel_coords ex_image ! 0 ! 0 =
      interp_flat_slice (ex_pixel_coords ! 0 ! 0) (ex_image ! 0 ! 0) 2 2"
    by (rule interp_flat_image_nth [OF ex_pixel_coords_shape _ ex_image_shape]) simp_all
  have z: "interp_flat_slice (ex_pixel_coords ! 0 ! 0) (ex_image ! 0 ! 0) 2 2 ! 1 = replicate 3 0"
    by (rule interp_flat_slice_invalid [where n = 4])
       (simp_all add: ex_pixel_coords_def ex_image_def shape3_def shape2_def)
  have "interp_flat_image ex_pixel_coords ex_image ! 0 ! 0 ! 1 \<noteq> ex_image ! 0 ! 0 ! 1 ! 1"
    unfolding eq z ex_image_values by (simp add: eval_nat_numeral)
  then show ?thesis by (simp add: ex_pixel_coords_def)
qed

theorem reconstruct_zero_depth_is_black_witness:
  "ex_depth ! 0 ! 0 ! 0 ! 0 = 0 \<and>
   reconstruct_bilinear_interp ex_pixel_coords ex_image ex_depth ! 0 ! 0 ! 0 ! 0 = [0, 0, 0]"
proof -
  have d: "ex_depth ! 0 ! 0 ! 0 ! 0 = 0" by (simp add: ex_depth_def)
  show ?thesis
    using reconstruct_zero_depth_is_black
        [OF ex_pixel_coords_shape_hw _ ex_image_shape ex_depth_shape, of 0 0 0 0] d
    by simp
qed

theorem erase_invalid_pixels_keeps_valid_depth_witness:
  "ex_depth ! 0 ! 1 ! 0 ! 0 \<noteq> 0 \<and>
   erase_invalid_pixels [[[[1, 2, 3], [0, 0, 0], [11 / 2, 13 / 2, 31 / 4], [0, 0, 0]]]] ex_depth
     ! 0 ! 0 ! (1 * 2 + 0) = [11 / 2, 13 / 2, 31 / 4]"
proof -
  have d: "ex_depth ! 0 ! 1 ! 0 ! 0 \<noteq> 0" by (simp add: ex_depth_def)
  have sh: "shape4 1 1 (2 * 2) 3
      [[[[1, 2, 3], [0, 0, 0], [11 / 2, 13 / 2, 31 / 4], [0, 0, 0::real]]]]"
    by (simp add: shape4_def shape3_def shape2_def)
  show ?thesis
    using erase_invalid_pixels_keeps_valid_depth [OF sh ex_depth_shape _ _ _ _ d, where s = 0] d
    by simp
qed

subsection \<open>The weights in binary32\<close>

lemma round_half_even_error: "\<bar>of_int (round_half_even x) - x\<bar> \<le> 1 / 2"
  unfolding round_half_even_def Let_def by (auto; linarith)

lemma round_half_even_nonneg: "0 \<le> x \<Longrightarrow> 0 \<le> round_half_even x"
  unfolding round_half_even_def Let_def by (auto; linarith)

lemma exponent_down_le: "exponent_down n e a \<le> e"
proof (induction n arbitrary: e)
  case 0
  show ?case by simp
next
  case (Suc n)
  show ?case using Suc [of "e - 1"] by simp
qed

lemma float32_exponent_le:
  assumes "\<bar>x\<bar> < 2"
  shows "float32_exponent x \<le> 0"
proof (cases "1 \<le> \<bar>x\<bar>")
  case True
  have s: "(127::nat) = Suc 126" by simp
  have "exponent_up 127 0 \<bar>x\<bar> = 0"
    unfolding s exponent_up.simps using assms by simp
  then show ?thesis using True by (simp only: float32_exponent_def if_True)
next
  case False
  then show ?thesis
    using exponent_down_le [of 125 "- 1" "\<bar>x\<bar>"] by (simp add: float32_exponent_def)
qed

lemma float32_error:
  assumes "\<bar>x\<bar> < 2"
  shows "\<bar>float32 x - x\<bar> \<le> 1 / 2 ^ 24"
proof -
  define ulp :: real where "ulp = 2 powi (float32_exponent x - 23)"
  have pos: "0 < ulp" unfolding ulp_def by (simp add: zero_less_power_int)
  have "ulp \<le> 2 powi (- 23)"
    unfolding ulp_def using float32_exponent_le [OF assms] by (intro power_int_increasing) simp_all
  then have le: "ulp \<le> 1 / 2 ^ 23" by (simp add: power_int_minus field_simps)
  have "float32 x - x = (of_int (round_half_even (x / ulp)) - x / ulp) * ulp"
    using pos by (simp add: float32_def Let_def ulp_def [symmetric] field_simps)
  then have "\<bar>float32 x - x\<bar> = \<bar>of_int (round_half_even (x / ulp)) - x / ulp\<bar> * ulp"
    using pos by (simp add: abs_mult)
  also have "\<dots> \<le> 1 / 2 * ulp"
    using round_half_even_error [of "x / ulp"] pos by (intro mult_right_mono) simp_all
  also have "\<dots> \<le> 1 / 2 * (1 / 2 ^ 23)" using le by simp
  finally show ?thesis by simp
qed

lemma float32_nonneg:
  assumes "0 \<le> x"
  shows "0 \<le> float32 x"
proof -
  define ulp :: real where "ulp = 2 powi (float32_exponent x - 23)"
  have pos: "0 < ulp" unfolding ulp_def by (simp add: zero_less_power_int)
  have "0 \<le> round_half_even (x / ulp)"
    using assms pos by (intro round_half_even_nonneg) simp
  then show ?thesis
    using pos by (simp add: float32_def Let_def ulp_def [symmetric])
qed

lemma float32_zero: "float32 0 = 0"
  by (simp add: float32_def Let_def round_half_even_def)

lemma float32_weight:
  assumes "0 \<le> a" and "a \<le> 1" and "0 \<le> b" and "b \<le> 1"
  shows "\<bar>float32 (float32 (float32 a * float32 b) * 1) - a * b\<bar> \<le> 5 / 2 ^ 24"
    and "0 \<le> float32 (float32 (float32 a * float32 b) * 1)"
proof -
  define A where "A = float32 a"
  define B where "B = float32 b"
  define P where "P = float32 (A * B)"
  define Q where "Q = float32 (P * 1)"
  have eA: "\<bar>A - a\<bar> \<le> 1 / 2 ^ 24" unfolding A_def using assms(1,2) by (intro float32_error) simp
  have eB: "\<bar>B - b\<bar> \<le> 1 / 2 ^ 24" unfolding B_def using assms(3,4) by (intro float32_error) simp
  have A0: "0 \<le> A" unfolding A_def using assms(1) by (rule float32_nonneg)
  have B0: "0 \<le> B" unfolding B_def using assms(3) by (rule float32_nonneg)
  have A1: "A \<le> 1 + 1 / 2 ^ 24" using eA assms(2) by linarith
  have B1: "B \<le> 1 + 1 / 2 ^ 24" using eB assms(4) by linarith
  have AB0: "0 \<le> A * B" using A0 B0 by simp
  have "A * B \<le> (1 + 1 / 2 ^ 24) * (1 + 1 / 2 ^ 24)"
    using A1 B1 A0 B0 by (intro mult_mono) simp_all
  then have AB1: "A * B \<le> 3 / 2" by simp
  have eP: "\<bar>P - A * B\<bar> \<le> 1 / 2 ^ 24"
    unfolding P_def using AB0 AB1 by (intro float32_error) simp
  have P0: "0 \<le> P" unfolding P_def using AB0 by (rule float32_nonneg)
  have P1: "P \<le> 3 / 2 + 1 / 2 ^ 24" using eP AB1 by linarith
  have eQ: "\<bar>Q - P\<bar> \<le> 1 / 2 ^ 24"
    using float32_error [of "P * 1"] P0 P1 unfolding Q_def by simp
  have Q0: "0 \<le> Q" unfolding Q_def using P0 by (intro float32_nonneg) simp
  have split: "A * B - a * b = A * (B - b) + (A - a) * b" by (simp add: algebra_simps)
  have "\<bar>A * (B - b)\<bar> \<le> (1 + 1 / 2 ^ 24) * (1 / 2 ^ 24)"
    unfolding abs_mult using A0 A1 eB by (intro mult_mono) simp_all
  then have t1: "\<bar>A * (B - b)\<bar> \<le> 2 / 2 ^ 24" by simp
  have "\<bar>(A - a) * b\<bar> \<le> 1 / 2 ^ 24 * 1"
    unfolding abs_mult using eA assms(3,4) by (intro mult_mono) simp_all
  then have t2: "\<bar>(A - a) * b\<bar> \<le> 1 / 2 ^ 24" by simp
  have eAB: "\<bar>A * B - a * b\<bar> \<le> 3 / 2 ^ 24"
    unfolding split using t1 t2 by linarith
  have "\<bar>Q - a * b\<bar> \<le> 5 / 2 ^ 24" using eQ eP eAB by linarith
  then show "\<bar>float32 (float32 (float32 a * float32 b) * 1) - a * b\<bar> \<le> 5 / 2 ^ 24"
    unfolding Q_def P_def A_def B_def .
  show "0 \<le> float32 (float32 (float32 a * float32 b) * 1)"
    using Q0 unfolding Q_def P_def A_def B_def .
qed

lemma calc_neighbor_weights_slice_float32_nth:
  assumes "2 \<le> length pc" and "length (pc ! 0) = n" and "length (pc ! 1) = n"
    and "shape2 4 n fc" and "shape2 1 n m" and "k < n"
  shows "calc_neighbor_weights_slice_float32 pc fc m ! 0 ! k =
           float32 (float32 (float32 (fc ! 1 ! k - pc ! 0 ! k) *
                             float32 (fc ! 3 ! k - pc ! 1 ! k)) * m ! 0 ! k)"
    and "calc_neighbor_weights_slice_float32 pc fc m ! 1 ! k =
           float32 (float32 (float32 (fc ! 1 ! k - pc ! 0 ! k) *
                             float32 (pc ! 1 ! k - fc ! 2 ! k)) * m ! 0 ! k)"
    and "calc_neighbor_weights_slice_float32 pc fc m ! 2 ! k =
           float32 (float32 (float32 (pc ! 0 ! k - fc ! 0 ! k) *
                             float32 (fc ! 3 ! k - pc ! 1 ! k)) * m ! 0 ! k)"
    and "calc_neighbor_weights_slice_float32 pc fc m ! 3 ! k =
           float32 (float32 (float32 (pc ! 0 ! k - fc ! 0 ! k) *
                             float32 (pc ! 1 ! k - fc ! 2 ! k)) * m ! 0 ! k)"
proof -
  from assms(4) obtain a b c d where fc: "fc = [a, b, c, d]"
    by (auto simp: shape2_def length4_conv)
  from assms(5) obtain r where m: "m = [r]"
    by (cases m) (auto simp: shape2_def)
  from assms(1) have "0 < length pc" "Suc 0 < length pc" by linarith+
  then have pc: "slice_rows 0 (Suc 0) pc = [pc ! 0]" "slice_rows (Suc 0) (Suc 0) pc = [pc ! 1]"
    by (simp_all add: slice_rows_single)
  have fcs: "slice_rows 0 (Suc 0) fc = [a]" "slice_rows (Suc 0) (Suc 0) fc = [b]"
       "slice_rows 2 (Suc 0) fc = [c]" "slice_rows 3 (Suc 0) fc = [d]"
    by (simp_all add: slice_rows_single fc)
  have eq: "calc_neighbor_weights_slice_float32 pc fc m =
     [map2 (\<lambda>x y. float32 (x * y))
        (map2 (\<lambda>x y. float32 (x * y)) (map2 (\<lambda>x y. float32 (x - y)) b (pc ! 0))
           (map2 (\<lambda>x y. float32 (x - y)) d (pc ! 1))) r,
      map2 (\<lambda>x y. float32 (x * y))
        (map2 (\<lambda>x y. float32 (x * y)) (map2 (\<lambda>x y. float32 (x - y)) b (pc ! 0))
           (map2 (\<lambda>x y. float32 (x - y)) (pc ! 1) c)) r,
      map2 (\<lambda>x y. float32 (x * y))
        (map2 (\<lambda>x y. float32 (x * y)) (map2 (\<lambda>x y. float32 (x - y)) (pc ! 0) a)
           (map2 (\<lambda>x y. float32 (x - y)) d (pc ! 1))) r,
      map2 (\<lambda>x y. float32 (x * y))
        (map2 (\<lambda>x y. float32 (x * y)) (map2 (\<lambda>x y. float32 (x - y)) (pc ! 0) a)
           (map2 (\<lambda>x y. float32 (x - y)) (pc ! 1) c)) r]"
    by (simp add: calc_neighbor_weights_slice_float32_def pc fcs m mat_map2_single Let_def
        broadcast_rows_def)
       (simp add: mat_map2_def)
  have lens: "length a = n" "length b = n" "length c = n" "length d = n" "length r = n"
    using assms(4,5) by (simp_all add: fc m shape2_def)
  show "calc_neighbor_weights_slice_float32 pc fc m ! 0 ! k =
           float32 (float32 (float32 (fc ! 1 ! k - pc ! 0 ! k) *
                             float32 (fc ! 3 ! k - pc ! 1 ! k)) * m ! 0 ! k)"
    unfolding eq using assms(2,3,6) lens by (simp add: fc m)
  show "calc_neighbor_weights_slice_float32 pc fc m ! 1 ! k =
           float32 (float32 (float32 (fc ! 1 ! k - pc ! 0 ! k) *
                             float32 (pc ! 1 ! k - fc ! 2 ! k)) * m ! 0 ! k)"
    unfolding eq using assms(2,3,6) lens by (simp add: fc m)
  show "calc_neighbor_weights_slice_float32 pc fc m ! 2 ! k =
           float32 (float32 (float32 (pc ! 0 ! k - fc ! 0 ! k) *
                             float32 (fc ! 3 ! k - pc ! 1 ! k)) * m ! 0 ! k)"
    unfolding eq using assms(2,3,6) lens by (simp add: fc m)
  show "calc_neighbor_weights_slice_float32 pc fc m ! 3 ! k =
           float32 (float32 (float32 (pc ! 0 ! k - fc ! 0 ! k) *
                             float32 (pc ! 1 ! k - fc ! 2 ! k)) * m ! 0 ! k)"
    unfolding eq using assms(2,3,6) lens by (simp add: fc m)
qed

lemma slice_weights_float32:
  fixes pc :: "real list list" and height width :: nat
  assumes "2 \<le> length pc" and "length (pc ! 0) = n" and "length (pc ! 1) = n" and "k < n"
  defines "fc \<equiv> neighbor_int_pixels_slice pc height width"
  defines "m \<equiv> make_valid_mask_slice fc"
  defines "w \<equiv> calc_neighbor_weights_slice_float32 pc fc m"
  defines "valid \<equiv> 0 \<le> \<lfloor>pc ! 0 ! k\<rfloor> \<and> \<lfloor>pc ! 0 ! k\<rfloor> + 2 \<le> int width \<and>
                     0 \<le> \<lfloor>pc ! 1 ! k\<rfloor> \<and> \<lfloor>pc ! 1 ! k\<rfloor> + 2 \<le> int height"
  shows "\<forall>i < 4. 0 \<le> w ! i ! k"
    and "\<not> valid \<Longrightarrow> \<forall>i < 4. w ! i ! k = 0"
    and "\<bar>w ! 0 ! k + w ! 1 ! k + w ! 2 ! k + w ! 3 ! k - m ! 0 ! k\<bar> \<le> 1 / 2 ^ 19"
proof -
  let ?u = "pc ! 0 ! k"
  let ?v = "pc ! 1 ! k"
  have shF: "shape2 4 n fc"
    unfolding fc_def using assms(1-3) by (rule neighbor_int_pixels_slice_shape)
  have shM: "shape2 1 n m"
    unfolding m_def using shF by (rule make_valid_mask_slice_shape)
  note wv = calc_neighbor_weights_slice_float32_nth [OF assms(1-3) shF shM assms(4),
      folded w_def]
  note mv = slice_mask_value [OF assms(1-4), of height width, folded fc_def m_def]
  note adj = adjacent_iff_unclamped [OF assms(1-4), of height width, folded fc_def]
  note fv = neighbor_int_pixels_slice_nth [OF assms(1-4), of height width, folded fc_def]
  have mval: "m ! 0 ! k = (if valid then 1 else 0)"
    unfolding valid_def using mv adj by auto
  have inv: "w ! 0 ! k = 0 \<and> w ! 1 ! k = 0 \<and> w ! 2 ! k = 0 \<and> w ! 3 ! k = 0" if "\<not> valid"
  proof -
    from that mval have "m ! 0 ! k = 0" by simp
    then show ?thesis unfolding wv by (simp add: float32_zero)
  qed
  have val: "(0 \<le> w ! 0 ! k \<and> 0 \<le> w ! 1 ! k \<and> 0 \<le> w ! 2 ! k \<and> 0 \<le> w ! 3 ! k) \<and>
      \<bar>w ! 0 ! k + w ! 1 ! k + w ! 2 ! k + w ! 3 ! k - 1\<bar> \<le> 1 / 2 ^ 19" if valid
  proof -
    from that have tu: "0 \<le> \<lfloor>?u\<rfloor>" "\<lfloor>?u\<rfloor> + 2 \<le> int width"
      and tv: "0 \<le> \<lfloor>?v\<rfloor>" "\<lfloor>?v\<rfloor> + 2 \<le> int height"
      unfolding valid_def by blast+
    from that mval have m1: "m ! 0 ! k = 1" by simp
    have f: "fc ! 0 ! k = of_int \<lfloor>?u\<rfloor>" "fc ! 1 ! k = of_int \<lfloor>?u\<rfloor> + 1"
      "fc ! 2 ! k = of_int \<lfloor>?v\<rfloor>" "fc ! 3 ! k = of_int \<lfloor>?v\<rfloor> + 1"
      unfolding fv tf_floor_def
      by (rule clamp_unclamped [OF tu] clamp_unclamped [OF tv])+
    define a0 where "a0 = of_int \<lfloor>?u\<rfloor> + 1 - ?u"
    define a1 where "a1 = ?u - of_int \<lfloor>?u\<rfloor>"
    define b0 where "b0 = of_int \<lfloor>?v\<rfloor> + 1 - ?v"
    define b1 where "b1 = ?v - of_int \<lfloor>?v\<rfloor>"
    have r: "0 \<le> a0" "a0 \<le> 1" "0 \<le> a1" "a1 \<le> 1" "0 \<le> b0" "b0 \<le> 1" "0 \<le> b1" "b1 \<le> 1"
      unfolding a0_def a1_def b0_def b1_def by linarith+
    have w: "w ! 0 ! k = float32 (float32 (float32 a0 * float32 b0) * 1)"
      "w ! 1 ! k = float32 (float32 (float32 a0 * float32 b1) * 1)"
      "w ! 2 ! k = float32 (float32 (float32 a1 * float32 b0) * 1)"
      "w ! 3 ! k = float32 (float32 (float32 a1 * float32 b1) * 1)"
      unfolding wv f m1 a0_def a1_def b0_def b1_def by (rule refl)+
    note e00 = float32_weight [OF r(1,2,5,6), folded w]
    note e01 = float32_weight [OF r(1,2,7,8), folded w]
    note e10 = float32_weight [OF r(3,4,5,6), folded w]
    note e11 = float32_weight [OF r(3,4,7,8), folded w]
    have one: "a0 * b0 + a0 * b1 + a1 * b0 + a1 * b1 = 1"
      unfolding a0_def a1_def b0_def b1_def by (simp add: algebra_simps)
    have "\<bar>w ! 0 ! k + w ! 1 ! k + w ! 2 ! k + w ! 3 ! k -
           (a0 * b0 + a0 * b1 + a1 * b0 + a1 * b1)\<bar> \<le> 20 / 2 ^ 24"
      using e00(1) e01(1) e10(1) e11(1) by linarith
    then have "\<bar>w ! 0 ! k + w ! 1 ! k + w ! 2 ! k + w ! 3 ! k - 1\<bar> \<le> 1 / 2 ^ 19"
      unfolding one by simp
    with e00(2) e01(2) e10(2) e11(2) show ?thesis by blast
  qed
  show "\<forall>i < 4. 0 \<le> w ! i ! k"
  proof (intro allI impI)
    fix i :: nat assume "i < 4"
    then have "i = 0 \<or> i = 1 \<or> i = 2 \<or> i = 3" by (rule less4_cases)
    then show "0 \<le> w ! i ! k" using inv val by (cases valid) auto
  qed
  show "\<forall>i < 4. w ! i ! k = 0" if "\<not> valid"
  proof (intro allI impI)
    fix i :: nat assume "i < 4"
    then have "i = 0 \<or> i = 1 \<or> i = 2 \<or> i = 3" by (rule less4_cases)
    then show "w ! i ! k = 0" using inv [OF that] by auto
  qed
  show "\<bar>w ! 0 ! k + w ! 1 ! k + w ! 2 ! k + w ! 3 ! k - m ! 0 ! k\<bar> \<le> 1 / 2 ^ 19"
  proof (cases valid)
    case True
    then show ?thesis using val mval by simp
  next
    case False
    then show ?thesis using inv mval by simp
  qed
qed

text \<open>
  C9, amended. For every warp coordinate the mask is 1 when floor and ceiling are
  unclamped on both axes and 0 otherwise. In exact arithmetic the four bilinear weights sum
  to the mask value and none is negative. The weights the code computes in binary32, with
  every difference and every product rounded, are not negative either; at an invalid
  coordinate all four are exactly 0; at a valid coordinate their sum is within
  2 to the -19 of 1, and it is not 1 in general (see the example below).
\<close>

theorem neighbor_weights_sum_to_mask:
  assumes "shape4 B S R N pixel_coords" and "2 \<le> R" and "b < B" and "s < S" and "k < N"
  shows "let fc = neighbor_int_pixels pixel_coords height width;
             mask = make_valid_mask fc;
             weights = calc_neighbor_weights pixel_coords fc mask;
             weights32 = calc_neighbor_weights_slice_float32 (pixel_coords ! b ! s)
                           (fc ! b ! s) (mask ! b ! s);
             valid = (0 \<le> \<lfloor>pixel_coords ! b ! s ! 0 ! k\<rfloor> \<and>
                      \<lfloor>pixel_coords ! b ! s ! 0 ! k\<rfloor> + 2 \<le> int width \<and>
                      0 \<le> \<lfloor>pixel_coords ! b ! s ! 1 ! k\<rfloor> \<and>
                      \<lfloor>pixel_coords ! b ! s ! 1 ! k\<rfloor> + 2 \<le> int height)
         in weights ! b ! s ! 0 ! k + weights ! b ! s ! 1 ! k +
              weights ! b ! s ! 2 ! k + weights ! b ! s ! 3 ! k = mask ! b ! s ! 0 ! k \<and>
            mask ! b ! s ! 0 ! k = (if valid then 1 else 0) \<and>
            (\<forall>i < 4. 0 \<le> weights ! b ! s ! i ! k) \<and>
            (\<forall>i < 4. 0 \<le> weights32 ! i ! k) \<and>
            (\<not> valid \<longrightarrow> (\<forall>i < 4. weights32 ! i ! k = 0)) \<and>
            \<bar>weights32 ! 0 ! k + weights32 ! 1 ! k + weights32 ! 2 ! k + weights32 ! 3 ! k
               - mask ! b ! s ! 0 ! k\<bar> \<le> 1 / 2 ^ 19"
proof -
  note sl = pixel_coords_slice [OF assms(1-4)]
  note eqs = resampler_slices [OF sl(1,2), of height width]
  note ex = neighbor_weights_exact_sum [OF assms, of height width, unfolded Let_def eqs]
  note fl = slice_weights_float32 [OF sl(3-5) assms(5), where height = height and width = width]
  show ?thesis
    unfolding Let_def eqs
    by (intro conjI impI ex [THEN conjunct1] ex [THEN conjunct2, THEN conjunct1]
        ex [THEN conjunct2, THEN conjunct2] fl(1) fl(3))
       (rule fl(2), assumption)
qed

theorem neighbor_weights_sum_to_mask_witness:
  "let fc = neighbor_int_pixels ex_pixel_coords 2 2;
       mask = make_valid_mask fc;
       weights = calc_neighbor_weights ex_pixel_coords fc mask;
       weights32 = calc_neighbor_weights_slice_float32 (ex_pixel_coords ! 0 ! 0)
                     (fc ! 0 ! 0) (mask ! 0 ! 0)
   in weights ! 0 ! 0 ! 0 ! 2 + weights ! 0 ! 0 ! 1 ! 2 +
        weights ! 0 ! 0 ! 2 ! 2 + weights ! 0 ! 0 ! 3 ! 2 = 1 \<and>
      mask ! 0 ! 0 ! 0 ! 2 = 1 \<and>
      weights ! 0 ! 0 ! 0 ! 1 + weights ! 0 ! 0 ! 1 ! 1 +
        weights ! 0 ! 0 ! 2 ! 1 + weights ! 0 ! 0 ! 3 ! 1 = 0 \<and>
      mask ! 0 ! 0 ! 0 ! 1 = 0 \<and>
      (\<forall>i < 4. 0 \<le> weights ! 0 ! 0 ! i ! 2) \<and>
      (\<forall>i < 4. 0 \<le> weights32 ! i ! 2) \<and>
      (\<forall>i < 4. weights32 ! i ! 1 = 0) \<and>
      \<bar>weights32 ! 0 ! 2 + weights32 ! 1 ! 2 + weights32 ! 2 ! 2 + weights32 ! 3 ! 2
         - mask ! 0 ! 0 ! 0 ! 2\<bar> \<le> 1 / 2 ^ 19"
  using neighbor_weights_sum_to_mask [OF ex_pixel_coords_shape, of 0 0 1 2 2]
    neighbor_weights_sum_to_mask [OF ex_pixel_coords_shape, of 0 0 2 2 2]
    ex_pixel_coords_values
  by (clarsimp simp: Let_def)

lemmas float32_eval = float32_def float32_exponent_def round_half_even_def Let_def
  power_int_minus eval_nat_numeral

lemma ex_coords_are_float32:
  "float32 (9581525 / 33554432) = 9581525 / 33554432"
  "float32 (4452677 / 33554432) = 4452677 / 33554432"
  by (simp_all add: float32_eval)

lemma ex_floorceil_float32:
  "neighbor_int_pixels_slice ex_coords_float32 4 4 = [[0], [1], [0], [1]]"
  by (simp add: ex_coords_float32_def neighbor_int_pixels_slice_def slice_rows_def mat_map_def
      tf_floor_def clip_by_value_def Let_def)

lemma ex_mask_float32: "make_valid_mask_slice [[0], [1], [0], [1]] = [[1]]"
  by (simp add: make_valid_mask_slice_def slice_rows_def mat_map_def mat_map2_def Let_def)

lemma ex_offsets_float32:
  "float32 (1 - 9581525 / 33554432) = 5993227 / 8388608"
  "float32 (9581525 / 33554432 - 0) = 9581525 / 33554432"
  "float32 (1 - 4452677 / 33554432) = 7275439 / 8388608"
  "float32 (4452677 / 33554432 - 0) = 4452677 / 33554432"
  by (simp_all add: float32_eval)

lemma ex_products_float32:
  "float32 (5993227 / 8388608 * (7275439 / 8388608)) = 10395851 / 16777216"
  "float32 (5993227 / 8388608 * (4452677 / 33554432)) = 12724831 / 134217728"
  "float32 (9581525 / 33554432 * (7275439 / 8388608)) = 1038757 / 4194304"
  "float32 (9581525 / 33554432 * (4452677 / 33554432)) = 2542939 / 67108864"
  by (simp_all add: float32_eval)

lemma ex_masked_float32:
  "float32 (10395851 / 16777216 * 1) = 10395851 / 16777216"
  "float32 (12724831 / 134217728 * 1) = 12724831 / 134217728"
  "float32 (1038757 / 4194304 * 1) = 1038757 / 4194304"
  "float32 (2542939 / 67108864 * 1) = 2542939 / 67108864"
  by (simp_all add: float32_eval)

lemma calc_neighbor_weights_slice_float32_single:
  "calc_neighbor_weights_slice_float32 [[u], [v]] [[uf], [uc], [vf], [vc]] [[m]] =
     [[float32 (float32 (float32 (uc - u) * float32 (vc - v)) * m)],
      [float32 (float32 (float32 (uc - u) * float32 (v - vf)) * m)],
      [float32 (float32 (float32 (u - uf) * float32 (vc - v)) * m)],
      [float32 (float32 (float32 (u - uf) * float32 (v - vf)) * m)]]"
  by (simp add: calc_neighbor_weights_slice_float32_def slice_rows_def mat_map2_def
      broadcast_rows_def Let_def)

lemma ex_weights_float32:
  "calc_neighbor_weights_slice_float32 ex_coords_float32 [[0], [1], [0], [1]] [[1]] =
     [[10395851 / 16777216], [12724831 / 134217728], [1038757 / 4194304],
      [2542939 / 67108864]]"
  unfolding ex_coords_float32_def calc_neighbor_weights_slice_float32_single
    ex_offsets_float32 ex_products_float32 ex_masked_float32 ..

lemma ex_float32_sums:
  "float32 (10395851 / 16777216 + 12724831 / 134217728) = 11986455 / 16777216"
  "float32 (11986455 / 16777216 + 1038757 / 4194304) = 16141483 / 16777216"
  "float32 (16141483 / 16777216 + 2542939 / 67108864) = 8388609 / 8388608"
  by (simp_all add: float32_eval)

theorem neighbor_weights_float32_sum_counterexample:
  "float32 (ex_coords_float32 ! 0 ! 0) = ex_coords_float32 ! 0 ! 0 \<and>
   float32 (ex_coords_float32 ! 1 ! 0) = ex_coords_float32 ! 1 ! 0 \<and>
   make_valid_mask_slice (neighbor_int_pixels_slice ex_coords_float32 4 4) = [[1]] \<and>
   sum_list (concat (calc_neighbor_weights_slice_float32 ex_coords_float32
       (neighbor_int_pixels_slice ex_coords_float32 4 4)
       (make_valid_mask_slice (neighbor_int_pixels_slice ex_coords_float32 4 4))))
     = 134217741 / 134217728 \<and>
   float32 (float32 (float32 (10395851 / 16777216 + 12724831 / 134217728)
       + 1038757 / 4194304) + 2542939 / 67108864) = 8388609 / 8388608"
  unfolding ex_floorceil_float32 ex_mask_float32 ex_weights_float32 ex_float32_sums
  by (simp add: ex_coords_float32_def ex_coords_are_float32)

subsection \<open>Photometric losses\<close>

lemma map2_upt:
  "map2 f (map g [0..<n]) (map h [0..<n]) = map (\<lambda>i. f (g i) (h i)) [0..<n]"
  by (simp add: zip_map1 zip_map2 zip_same_conv_map)

lemma t3_map_tab3: "t3_map f (tab3 H W C g) = tab3 H W C (\<lambda>i j c. f (g i j c))"
  by (simp add: t3_map_def tab3_def comp_def)

lemma t3_map2_tab3:
  "t3_map2 f (tab3 H W C g) (tab3 H W C h) = tab3 H W C (\<lambda>i j c. f (g i j c) (h i j c))"
  by (simp add: t3_map2_def tab3_def map2_upt)

lemma tab3_nth:
  "i < H \<Longrightarrow> j < W \<Longrightarrow> c < C \<Longrightarrow> tab3 H W C g ! i ! j ! c = g i j c"
  by (simp add: tab3_def)

lemma tab3_dims:
  "length (tab3 H W C g) = H"
  "0 < H \<Longrightarrow> length (hd (tab3 H W C g)) = W"
  "0 < H \<Longrightarrow> 0 < W \<Longrightarrow> length (hd (hd (tab3 H W C g))) = C"
  by (simp_all add: tab3_def hd_map)

lemma shape3_tab3_conv:
  assumes "shape3 H W C X"
  shows "X = tab3 H W C (\<lambda>i j c. X ! i ! j ! c)"
proof (rule nth_equalityI)
  show "length X = length (tab3 H W C (\<lambda>i j c. X ! i ! j ! c))"
    using assms by (simp add: tab3_def shape3_def)
  fix i assume "i < length X"
  then have i: "i < H" using assms by (simp add: shape3_def)
  have s2: "shape2 W C (X ! i)" using assms i by (rule shape3_nth)
  show "X ! i = tab3 H W C (\<lambda>i j c. X ! i ! j ! c) ! i"
  proof (rule nth_equalityI)
    show "length (X ! i) = length (tab3 H W C (\<lambda>i j c. X ! i ! j ! c) ! i)"
      using s2 i by (simp add: tab3_def shape2_def)
    fix j assume "j < length (X ! i)"
    then have j: "j < W" using s2 by (simp add: shape2_def)
    have l: "length (X ! i ! j) = C" using s2 j by (rule shape2_nth)
    show "X ! i ! j = tab3 H W C (\<lambda>i j c. X ! i ! j ! c) ! i ! j"
      using i j l by (simp add: tab3_def map_nth [symmetric] del: map_nth)
         (metis map_nth)
  qed
qed

lemma sum_list_concat_eq:
  fixes xss :: "'a::monoid_add list list"
  shows "sum_list (concat xss) = sum_list (map sum_list xss)"
  by (induction xss) simp_all

lemma sum_list_tab3:
  "sum_list (concat (concat (tab3 H W C g))) =
   (\<Sum>i\<leftarrow>[0..<H]. \<Sum>j\<leftarrow>[0..<W]. \<Sum>c\<leftarrow>[0..<C]. g i j c)"
  by (simp add: tab3_def sum_list_concat_eq map_concat comp_def)

lemma length_concat_tab3: "length (concat (concat (tab3 H W C g))) = H * W * C"
proof -
  have a: "\<forall>r \<in> set (tab3 H W C g). length r = W" by (auto simp: tab3_def)
  have b: "\<forall>p \<in> set (concat (tab3 H W C g)). length p = C" by (auto simp: tab3_def)
  have "length (concat (tab3 H W C g)) = H * W"
    using length_concat_rect [OF a] by (simp add: tab3_dims)
  then show ?thesis using length_concat_rect [OF b] by simp
qed

lemma mat_map_tab3_single:
  "mat_map (\<lambda>px. [f px]) (tab3 H W C g) = tab3 H W 1 (\<lambda>i j c. f (map (g i j) [0..<C]))"
  by (simp add: mat_map_def tab3_def comp_def)

lemma tf_where_tab3:
  "tf_where (tab3 H W 1 m) x (tab3 H W C e) =
     tab3 H W C (\<lambda>i j c. if m i j 0 then x else e i j c)"
  by (simp add: tf_where_def mat_map2_def tab3_def map2_upt comp_def)

lemma reduce_mean_tab3:
  "reduce_mean (concat (concat (tab3 H W C g))) =
     (\<Sum>i\<leftarrow>[0..<H]. \<Sum>j\<leftarrow>[0..<W]. \<Sum>c\<leftarrow>[0..<C]. g i j c) / real (H * W * C)"
  unfolding reduce_mean_def sum_list_tab3 length_concat_tab3 ..

lemma kept_abs_errors_tab3:
  "sum_list (kept_abs_errors (tab3 H W C gs) (tab3 H W C gt)) =
     (\<Sum>i\<leftarrow>[0..<H]. \<Sum>j\<leftarrow>[0..<W]. \<Sum>c\<leftarrow>[0..<C].
        if reduce_mean (map (gs i j) [0..<C]) = 0 then 0 else \<bar>gs i j c - gt i j c\<bar>)"
proof -
  have px: "sum_list (if reduce_mean (map (gs i j) [0..<C]) = 0 then []
                      else map (\<lambda>c. \<bar>gs i j c - gt i j c\<bar>) [0..<C]) =
            (\<Sum>c\<leftarrow>[0..<C]. if reduce_mean (map (gs i j) [0..<C]) = 0 then 0
                            else \<bar>gs i j c - gt i j c\<bar>)" for i j
    by simp
  show ?thesis
    unfolding kept_abs_errors_def mat_map2_def tab3_def map2_upt
    unfolding sum_list_concat_eq map_concat map_map comp_def px ..
qed

lemma photometric_loss_l1_slice_tab3:
  "photometric_loss_l1_slice (tab3 H W C gs) (tab3 H W C gt) =
     sum_list (kept_abs_errors (tab3 H W C gs) (tab3 H W C gt)) / real (H * W * C)"
  unfolding photometric_loss_l1_slice_def Let_def mat_map_tab3_single t3_map_tab3 t3_map2_tab3
    tf_where_tab3 reduce_mean_tab3 kept_abs_errors_tab3 ..

lemma photometric_loss_l1_slice_eq:
  assumes "shape3 H W C synt" and "shape3 H W C orig"
  shows "photometric_loss_l1_slice synt orig =
           sum_list (kept_abs_errors synt orig) / real (H * W * C)"
  using photometric_loss_l1_slice_tab3
    [of H W C "\<lambda>i j c. synt ! i ! j ! c" "\<lambda>i j c. orig ! i ! j ! c"]
  unfolding shape3_tab3_conv [OF assms(1), symmetric] shape3_tab3_conv [OF assms(2), symmetric] .

lemma photometric_loss_l1_nth:
  assumes "b < length synt" and "b < length orig" and "s < length (synt ! b)"
  shows "photometric_loss_l1 synt orig ! b ! s =
           photometric_loss_l1_slice (synt ! b ! s) (orig ! b)"
  using assms by (simp add: photometric_loss_l1_def)

lemma loss_slices:
  assumes "shape5 B S H W C synt" and "shape4 B H W C orig" and "b < B" and "s < S"
  shows "b < length synt" and "b < length orig" and "s < length (synt ! b)"
    and "shape3 H W C (synt ! b ! s)" and "shape3 H W C (orig ! b)"
proof -
  have s4: "shape4 S H W C (synt ! b)" using assms(1,3) by (rule shape5_nth)
  show "b < length synt" using assms(1,3) by (simp add: shape5_length)
  show "b < length orig" using assms(2,3) by (simp add: shape4_length)
  show "s < length (synt ! b)" using s4 assms(4) by (simp add: shape4_length)
  show "shape3 H W C (synt ! b ! s)" using s4 assms(4) by (rule shape4_nth)
  show "shape3 H W C (orig ! b)" using assms(2,3) by (rule shape4_nth)
qed

text \<open>
  C4, amended. For one batch element and one source frame, \<open>photometric_loss_l1\<close>
  is the sum of the absolute differences over the pixels that are not masked (a pixel is
  masked when the mean of its synthesized channels is 0), divided by the number
  \<open>H * W * C\<close> of all entries of the image: masked pixels add nothing to the sum but
  are counted in the denominator.
\<close>

theorem photometric_loss_l1_divides_by_all_pixels:
  assumes "shape5 B S H W C synt_target" and "shape4 B H W C orig_target"
    and "b < B" and "s < S" and "0 < H" and "0 < W" and "0 < C"
  shows "photometric_loss_l1 synt_target orig_target ! b ! s =
           sum_list (kept_abs_errors (synt_target ! b ! s) (orig_target ! b)) / real (H * W * C)"
proof -
  note sl = loss_slices [OF assms(1-4)]
  show ?thesis
    unfolding photometric_loss_l1_nth [OF sl(1-3)]
    using sl(4,5) by (rule photometric_loss_l1_slice_eq)
qed

lemma ex_targets_shape:
  "shape5 1 1 1 2 3 ex_synt_target" "shape4 1 1 2 3 ex_orig_target"
  by (simp_all add: ex_synt_target_def ex_orig_target_def shape5_def shape4_def shape3_def
      shape2_def)

lemma ex_kept_abs_errors:
  "kept_abs_errors (ex_synt_target ! 0 ! 0) (ex_orig_target ! 0) = [1, 1, 1]"
  by (simp add: kept_abs_errors_def ex_synt_target_def ex_orig_target_def mat_map2_def
      reduce_mean_def)

theorem photometric_loss_l1_divides_by_all_pixels_witness:
  "photometric_loss_l1 ex_synt_target ex_orig_target ! 0 ! 0 = 1 / 2"
  using photometric_loss_l1_divides_by_all_pixels [OF ex_targets_shape, of 0 0]
  by (simp add: ex_kept_abs_errors)

theorem photometric_loss_l1_denominator_counterexample:
  "photometric_loss_l1 ex_synt_target ex_orig_target ! 0 ! 0 = 1 / 2 \<and>
   masked_mean_l1_spec (ex_synt_target ! 0 ! 0) (ex_orig_target ! 0) = 1 \<and>
   photometric_loss_l1 ex_synt_target ex_orig_target ! 0 ! 0 \<noteq>
   masked_mean_l1_spec (ex_synt_target ! 0 ! 0) (ex_orig_target ! 0)"
proof -
  have a: "photometric_loss_l1 ex_synt_target ex_orig_target ! 0 ! 0 = 1 / 2"
    by (simp add: photometric_loss_l1_def photometric_loss_l1_slice_def Let_def
        ex_synt_target_def ex_orig_target_def mat_map_def mat_map2_def t3_map_def t3_map2_def
        tf_where_def reduce_mean_def)
  have b: "masked_mean_l1_spec (ex_synt_target ! 0 ! 0) (ex_orig_target ! 0) = 1"
    by (simp add: masked_mean_l1_spec_def ex_kept_abs_errors reduce_mean_def)
  show ?thesis unfolding a b by simp
qed

lemma sum_list_map_zero:
  fixes f :: "'a \<Rightarrow> real"
  shows "(\<And>x. x \<in> set xs \<Longrightarrow> f x = 0) \<Longrightarrow> sum_list (map f xs) = 0"
  by (induction xs) simp_all

lemma kept_abs_errors_equal_off_mask:
  assumes "shape3 H W C X" and "shape3 H W C Y"
    and "\<forall>i < H. \<forall>j < W. reduce_mean (X ! i ! j) \<noteq> 0 \<longrightarrow> X ! i ! j = Y ! i ! j"
  shows "sum_list (kept_abs_errors X Y) = 0"
proof -
  let ?gx = "\<lambda>i j c. X ! i ! j ! c" and ?gy = "\<lambda>i j c. Y ! i ! j ! c"
  have px: "map (?gx i j) [0..<C] = X ! i ! j" if "i < H" "j < W" for i j
    using image_pixel_length [OF assms(1) that] by (metis map_nth)
  have zero: "(if reduce_mean (map (?gx i j) [0..<C]) = 0 then 0 else \<bar>?gx i j c - ?gy i j c\<bar>) = 0"
    if "i < H" "j < W" for i j c
    using assms(3) that by (auto simp: px)
  have "sum_list (kept_abs_errors (tab3 H W C ?gx) (tab3 H W C ?gy)) = 0"
    unfolding kept_abs_errors_tab3
    by (intro sum_list_map_zero) (simp add: zero)
  then show ?thesis
    unfolding shape3_tab3_conv [OF assms(1), symmetric] shape3_tab3_conv [OF assms(2), symmetric] .
qed

text \<open>
  C5, amended. When the synthesized target of batch element \<open>b\<close> and source frame
  \<open>s\<close> equals the original target of \<open>b\<close> at every pixel that is not masked (the
  mean of its synthesized channels is not 0), \<open>photometric_loss_l1\<close> is 0 there: every
  kept error is \<open>\<bar>x - x\<bar>\<close> and every masked one is replaced by 0, in float32 as in
  exact arithmetic. Nothing of the kind is stated for \<open>photometric_loss_ssim\<close>, whose
  3x3 windows read the masked pixels too.
\<close>

theorem photometric_loss_l1_zero_when_equal_off_mask:
  assumes "shape5 B S H W C synt_target" and "shape4 B H W C orig_target"
    and "b < B" and "s < S" and "0 < H" and "0 < W" and "0 < C"
    and "\<forall>y < H. \<forall>x < W. reduce_mean (synt_target ! b ! s ! y ! x) \<noteq> 0 \<longrightarrow>
           synt_target ! b ! s ! y ! x = orig_target ! b ! y ! x"
  shows "photometric_loss_l1 synt_target orig_target ! b ! s = 0"
proof -
  note sl = loss_slices [OF assms(1-4)]
  show ?thesis
    unfolding photometric_loss_l1_nth [OF sl(1-3)] photometric_loss_l1_slice_eq [OF sl(4,5)]
      kept_abs_errors_equal_off_mask [OF sl(4,5) assms(8)]
    by simp
qed

lemma ex_orig_white_shape: "shape4 1 1 2 3 ex_orig_white"
  by (simp add: ex_orig_white_def shape4_def shape3_def shape2_def)

lemma ex_equal_off_mask:
  "reduce_mean (ex_synt_target ! 0 ! 0 ! 0 ! 0) = 0"
  "ex_synt_target ! 0 ! 0 ! 0 ! 1 = ex_orig_white ! 0 ! 0 ! 1"
  by (simp_all add: ex_synt_target_def ex_orig_white_def reduce_mean_def)

theorem photometric_loss_l1_zero_when_equal_off_mask_witness:
  "ex_synt_target ! 0 ! 0 ! 0 ! 0 \<noteq> ex_orig_white ! 0 ! 0 ! 0 \<and>
   photometric_loss_l1 ex_synt_target ex_orig_white ! 0 ! 0 = 0"
proof -
  have h: "\<forall>y < 1. \<forall>x < 2. reduce_mean (ex_synt_target ! 0 ! 0 ! y ! x) \<noteq> 0 \<longrightarrow>
           ex_synt_target ! 0 ! 0 ! y ! x = ex_orig_white ! 0 ! y ! x"
    using ex_equal_off_mask by (auto simp: less_Suc_eq eval_nat_numeral)
  have d: "ex_synt_target ! 0 ! 0 ! 0 ! 0 \<noteq> ex_orig_white ! 0 ! 0 ! 0"
    by (simp add: ex_synt_target_def ex_orig_white_def)
  show ?thesis
    using photometric_loss_l1_zero_when_equal_off_mask
      [OF ex_targets_shape(1) ex_orig_white_shape _ _ _ _ _ h] d
    by simp
qed

text \<open>
  The synthesized image \<open>ex_synt_target\<close> is black at its first pixel, which is
  therefore masked, and equals the white target at its second pixel. The L1 loss is 0,
  the SSIM loss is 868750/3485001, about 0.249 (float32 rounding moves this value in its
  last digits only).
\<close>

lemma ex_l1_equal_off_mask: "photometric_loss_l1 ex_synt_target ex_orig_white ! 0 ! 0 = 0"
  by (simp add: photometric_loss_l1_def photometric_loss_l1_slice_def Let_def
      ex_synt_target_def ex_orig_white_def mat_map_def mat_map2_def t3_map_def t3_map2_def
      tf_where_def reduce_mean_def)

lemma ex_ssim_equal_off_mask:
  "photometric_loss_ssim ex_synt_target ex_orig_white ! 0 ! 0 = 868750 / 3485001"
  by (simp add: photometric_loss_ssim_def photometric_loss_ssim_slice_def Let_def
      ex_synt_target_def ex_orig_white_def mat_map_def mat_map2_def t3_map_def t3_map2_def
      tf_where_def reduce_mean_def average_pool_def pool_window_def clip_by_value_def
      upt_rec [of 0] upt_rec [of 1] upt_rec [of 2] eval_nat_numeral)

theorem photometric_loss_ssim_equal_off_mask_counterexample:
  "reduce_mean (ex_synt_target ! 0 ! 0 ! 0 ! 0) = 0 \<and>
   ex_synt_target ! 0 ! 0 ! 0 ! 1 = ex_orig_white ! 0 ! 0 ! 1 \<and>
   photometric_loss_l1 ex_synt_target ex_orig_white ! 0 ! 0 = 0 \<and>
   photometric_loss_ssim ex_synt_target ex_orig_white ! 0 ! 0 = 868750 / 3485001 \<and>
   photometric_loss_ssim ex_synt_target ex_orig_white ! 0 ! 0 \<noteq> 0"
  unfolding ex_l1_equal_off_mask ex_ssim_equal_off_mask
  using ex_equal_off_mask by simp

subsection \<open>Warping with the identity pose\<close>



























end
